theory Spec2Isabelle
  imports Main "HOL-Library.AList" "HOL-Library.Sublist"
begin

section \<open>Python values and control flow\<close>

text \<open>
  The token pool manager \<^verbatim>\<open>tools/jobserver_pool.py\<close> is embedded as functions over an
  explicit operating-system state. A call either returns a value or raises; both
  leave a state behind, so a computation has the type
  \<open>'s \<Rightarrow> (exn + 'a) \<times> 's\<close>. \<open>Hang\<close> is not a Python exception: it stands for a
  system call that never returns (a blocking read on an empty pipe).
\<close>

datatype exn =
    AssertionError string
  | BlockingIOError
  | FileNotFoundError
  | FileExistsError
  | IsADirectoryError
  | OSError
  | UnboundLocalError string
  | Win32Error
  | SystemExit int
  | Hang

type_synonym ('a, 's) py = "'s \<Rightarrow> (exn + 'a) \<times> 's"

definition return :: "'a \<Rightarrow> ('a, 's) py" where
  "return a s = (Inr a, s)"

definition raise :: "exn \<Rightarrow> ('a, 's) py" where
  "raise e s = (Inl e, s)"

definition and_then :: "('a, 's) py \<Rightarrow> ('a \<Rightarrow> ('b, 's) py) \<Rightarrow> ('b, 's) py" where
  "and_then m f s = (case m s of (Inl e, s1) \<Rightarrow> (Inl e, s1) | (Inr a, s1) \<Rightarrow> f a s1)"

text \<open>
  \<^verbatim>\<open>try: body finally: fin\<close>. The finaliser runs whether the body returned or raised;
  an exception of the finaliser replaces the body's outcome. Nothing runs after a
  call that never returns.
\<close>

definition try_finally :: "('a, 's) py \<Rightarrow> (unit, 's) py \<Rightarrow> ('a, 's) py" where
  "try_finally body fin s =
     (case body s of
        (Inl Hang, s1) \<Rightarrow> (Inl Hang, s1)
      | (r, s1) \<Rightarrow>
          (case fin s1 of
             (Inl e, s2) \<Rightarrow> (Inl e, s2)
           | (Inr _, s2) \<Rightarrow> (r, s2)))"

definition py_assert :: "bool \<Rightarrow> string \<Rightarrow> (unit, 's) py" where
  "py_assert c msg = (if c then return () else raise (AssertionError msg))"

text \<open>Decimal rendering of an integer, as \<^verbatim>\<open>str(n)\<close> and \<^verbatim>\<open>f"{n}"\<close> give it.\<close>

definition digit_char :: "nat \<Rightarrow> char" where
  "digit_char d = ''0123456789'' ! d"

fun str_nat :: "nat \<Rightarrow> string" where
  "str_nat n = (if n < 10 then [digit_char n] else str_nat (n div 10) @ [digit_char (n mod 10)])"

declare str_nat.simps [simp del]

definition str_int :: "int \<Rightarrow> string" where
  "str_int i = (if i < 0 then CHR ''-'' # str_nat (nat (- i)) else str_nat (nat i))"

section \<open>The operating system\<close>

text \<open>
  A pipe or FIFO is a channel: a queue of bytes, one byte per token. The kernel
  buffers at most \<open>pipe_capacity\<close> bytes per channel (65536 on Linux unless changed), and
  a write of at most \<open>pipe_buf\<close> bytes (\<^verbatim>\<open>PIPE_BUF\<close>, 4096 on Linux) is atomic. The
  descriptor table holds the manager's own open descriptors, each one end of a
  channel. The file system maps a path to what is there; \<open>fs_refuses\<close> holds what the
  map does not: the error with which a node cannot be created at a path (a missing
  parent directory, a dangling symbolic link, no permission).
\<close>

datatype fd_end = ReadEnd | WriteEnd

record fd_entry =
  fd_chan :: nat
  fd_dir :: fd_end
  fd_nonblock :: bool
  fd_inheritable :: bool

datatype node = RegularFile | Directory | Fifo nat

text \<open>One entry per call of \<^verbatim>\<open>subprocess.run\<close>: the command, the environment the child
  really had, the descriptors passed, and the return code (\<open>None\<close> when the launch
  raised).\<close>

record launch =
  l_command :: "string list"
  l_env :: "string \<rightharpoonup> string"
  l_pass_fds :: "nat list"
  l_returncode :: "int option"

text \<open>\<open>kernel\<close> is the state behind the Win32 calls (named semaphores), of a type the
  model leaves open.\<close>

record 'k world =
  os_environ :: "string \<rightharpoonup> string"
  fs :: "string \<rightharpoonup> node"
  fs_refuses :: "string \<rightharpoonup> exn"
  chans :: "nat \<Rightarrow> string"
  pipe_capacity :: nat
  pipe_buf :: nat
  next_chan :: nat
  fds :: "(nat \<times> fd_entry) list"
  stderr :: "string list"
  launched :: "launch list"
  kernel :: 'k

text \<open>A new descriptor is the lowest number not in use.\<close>

fun lowest_free_from :: "nat list \<Rightarrow> nat \<Rightarrow> nat \<Rightarrow> nat" where
  "lowest_free_from used n 0 = n"
| "lowest_free_from used n (Suc k) =
     (if n \<in> set used then lowest_free_from used (Suc n) k else n)"

definition lowest_free :: "nat list \<Rightarrow> nat" where
  "lowest_free used = lowest_free_from used 0 (length used)"

definition new_fd :: "fd_entry \<Rightarrow> (nat, 'k world) py" where
  "new_fd e w =
     (let fd = lowest_free (map fst (fds w))
      in (Inr fd, w\<lparr>fds := (fd, e) # fds w\<rparr>))"

definition new_chan :: "(nat, 'k world) py" where
  "new_chan w =
     (let c = next_chan w
      in (Inr c, w\<lparr>chans := (chans w)(c := []), next_chan := Suc c\<rparr>))"

text \<open>\<^verbatim>\<open>os.pipe()\<close>: a fresh channel and two descriptors on it, blocking and not
  inheritable.\<close>

definition os_pipe :: "(nat \<times> nat, 'k world) py" where
  "os_pipe =
     and_then new_chan (\<lambda>c.
     and_then (new_fd \<lparr>fd_chan = c, fd_dir = ReadEnd, fd_nonblock = False, fd_inheritable = False\<rparr>) (\<lambda>r.
     and_then (new_fd \<lparr>fd_chan = c, fd_dir = WriteEnd, fd_nonblock = False, fd_inheritable = False\<rparr>) (\<lambda>w.
     return (r, w))))"

definition os_set_inheritable :: "nat \<Rightarrow> bool \<Rightarrow> (unit, 'k world) py" where
  "os_set_inheritable fd inheritable w =
     (case map_of (fds w) fd of
        None \<Rightarrow> (Inl OSError, w)
      | Some e \<Rightarrow> (Inr (), w\<lparr>fds := AList.update fd (e\<lparr>fd_inheritable := inheritable\<rparr>) (fds w)\<rparr>))"

definition os_set_blocking :: "nat \<Rightarrow> bool \<Rightarrow> (unit, 'k world) py" where
  "os_set_blocking fd blocking w =
     (case map_of (fds w) fd of
        None \<Rightarrow> (Inl OSError, w)
      | Some e \<Rightarrow> (Inr (), w\<lparr>fds := AList.update fd (e\<lparr>fd_nonblock := \<not> blocking\<rparr>) (fds w)\<rparr>))"

text \<open>
  \<^verbatim>\<open>os.write(fd, data)\<close> returns how many bytes it has put into the channel. Data that
  fits into the room left is written whole. Otherwise a blocking descriptor fills
  the buffer and waits for a reader, which never comes while the manager is the one
  waiting: the call does not return. A non-blocking descriptor raises
  \<^verbatim>\<open>BlockingIOError\<close> when there is no room at all or when the data would have to be
  written atomically, and else writes only as much as fits.
\<close>

definition os_write :: "nat \<Rightarrow> string \<Rightarrow> (nat, 'k world) py" where
  "os_write fd data w =
     (case map_of (fds w) fd of
        None \<Rightarrow> (Inl OSError, w)
      | Some e \<Rightarrow>
          (if fd_dir e \<noteq> WriteEnd then (Inl OSError, w)
           else
             (let buf = chans w (fd_chan e);
                  room = pipe_capacity w - length buf
              in if length data \<le> room then
                   (Inr (length data), w\<lparr>chans := (chans w)(fd_chan e := buf @ data)\<rparr>)
                 else if \<not> fd_nonblock e then
                   (Inl Hang, w\<lparr>chans := (chans w)(fd_chan e := buf @ take room data)\<rparr>)
                 else if room = 0 \<or> length data \<le> pipe_buf w then
                   (Inl BlockingIOError, w)
                 else
                   (Inr room, w\<lparr>chans := (chans w)(fd_chan e := buf @ take room data)\<rparr>))))"

definition writer_open :: "nat \<Rightarrow> 'k world \<Rightarrow> bool" where
  "writer_open c w = list_ex (\<lambda>(fd, e). fd_chan e = c \<and> fd_dir e = WriteEnd) (fds w)"

definition reader_open :: "nat \<Rightarrow> 'k world \<Rightarrow> bool" where
  "reader_open c w = list_ex (\<lambda>(fd, e). fd_chan e = c \<and> fd_dir e = ReadEnd) (fds w)"

text \<open>
  \<^verbatim>\<open>os.read(fd, n)\<close> takes up to \<open>n\<close> bytes off the channel. On an empty channel it
  returns no bytes when no write end is open (end of file), raises
  \<^verbatim>\<open>BlockingIOError\<close> on a non-blocking descriptor, and otherwise never returns.
\<close>

definition os_read :: "nat \<Rightarrow> nat \<Rightarrow> (string, 'k world) py" where
  "os_read fd n w =
     (case map_of (fds w) fd of
        None \<Rightarrow> (Inl OSError, w)
      | Some e \<Rightarrow>
          (if fd_dir e \<noteq> ReadEnd then (Inl OSError, w)
           else if chans w (fd_chan e) = [] then
             (if \<not> writer_open (fd_chan e) w then (Inr [], w)
              else if fd_nonblock e then (Inl BlockingIOError, w)
              else (Inl Hang, w))
           else (Inr (take n (chans w (fd_chan e))),
                 w\<lparr>chans := (chans w)(fd_chan e := drop n (chans w (fd_chan e)))\<rparr>)))"

definition os_close :: "nat \<Rightarrow> (unit, 'k world) py" where
  "os_close fd w =
     (case map_of (fds w) fd of
        None \<Rightarrow> (Inl OSError, w)
      | Some e \<Rightarrow> (Inr (), w\<lparr>fds := AList.delete fd (fds w)\<rparr>))"

definition os_path_exists :: "string \<Rightarrow> (bool, 'k world) py" where
  "os_path_exists path w = (Inr (fs w path \<noteq> None), w)"

definition os_remove :: "string \<Rightarrow> (unit, 'k world) py" where
  "os_remove path w =
     (case fs w path of
        None \<Rightarrow> (Inl FileNotFoundError, w)
      | Some Directory \<Rightarrow> (Inl IsADirectoryError, w)
      | Some _ \<Rightarrow> (Inr (), w\<lparr>fs := (fs w)(path := None)\<rparr>))"

text \<open>\<^verbatim>\<open>os.mkfifo(path)\<close> fails when something is at the path already or when the
  file system refuses the new node; otherwise the path names a fresh channel.\<close>

definition os_mkfifo :: "string \<Rightarrow> (unit, 'k world) py" where
  "os_mkfifo path w =
     (case fs w path of
        Some _ \<Rightarrow> (Inl FileExistsError, w)
      | None \<Rightarrow>
          (case fs_refuses w path of
             Some e \<Rightarrow> (Inl e, w)
           | None \<Rightarrow>
               and_then new_chan (\<lambda>c w1. (Inr (), w1\<lparr>fs := (fs w1)(path \<mapsto> Fifo c)\<rparr>)) w))"

text \<open>
  \<^verbatim>\<open>os.open(path, O_RDONLY | O_NONBLOCK)\<close> and \<^verbatim>\<open>os.open(path, O_WRONLY | O_NONBLOCK)\<close>
  on a FIFO. The descriptor table holds pipe ends only, so opening anything else
  is an error here; a non-blocking open for writing fails when no read end is open,
  and a blocking open waits for the peer.
\<close>

definition os_open :: "string \<Rightarrow> fd_end \<Rightarrow> bool \<Rightarrow> (nat, 'k world) py" where
  "os_open path dir nonblock w =
     (case fs w path of
        None \<Rightarrow> (Inl FileNotFoundError, w)
      | Some (Fifo c) \<Rightarrow>
          (if dir = WriteEnd \<and> \<not> reader_open c w then (Inl (if nonblock then OSError else Hang), w)
           else if dir = ReadEnd \<and> \<not> nonblock \<and> \<not> writer_open c w then (Inl Hang, w)
           else new_fd \<lparr>fd_chan = c, fd_dir = dir, fd_nonblock = nonblock, fd_inheritable = False\<rparr> w)
      | Some _ \<Rightarrow> (Inl OSError, w))"

definition get_environ :: "(string \<rightharpoonup> string, 'k world) py" where
  "get_environ w = (Inr (os_environ w), w)"

definition print_stderr :: "string \<Rightarrow> (unit, 'k world) py" where
  "print_stderr line w = (Inr (), w\<lparr>stderr := stderr w @ [line]\<rparr>)"

subsection \<open>The child process\<close>

text \<open>
  The child command is opaque: given its command line, its environment and the
  descriptors passed to it, it either cannot be launched or exits with a return
  code, having changed what it shares with the manager: the file system, the
  channels and the Win32 kernel objects.
\<close>

datatype 'k child_result =
    LaunchFailed
  | Exited int "string \<rightharpoonup> node" "nat \<Rightarrow> string" 'k

type_synonym 'k child =
  "string list \<Rightarrow> (string \<rightharpoonup> string) \<Rightarrow> nat list
     \<Rightarrow> (string \<rightharpoonup> node) \<Rightarrow> (nat \<Rightarrow> string) \<Rightarrow> 'k \<Rightarrow> 'k child_result"

text \<open>\<^verbatim>\<open>subprocess.run(command, env=env, pass_fds=...).returncode\<close>. Without \<^verbatim>\<open>env\<close>
  the child inherits the manager's environment.\<close>

definition subprocess_run ::
  "'k child \<Rightarrow> string list \<Rightarrow> (string \<rightharpoonup> string) option \<Rightarrow> nat list \<Rightarrow> (int, 'k world) py" where
  "subprocess_run child cmd env pass_fds w =
     (let e = (case env of None \<Rightarrow> os_environ w | Some e' \<Rightarrow> e');
          entry = \<lparr>l_command = cmd, l_env = e, l_pass_fds = pass_fds, l_returncode = None\<rparr>
      in case child cmd e pass_fds (fs w) (chans w) (kernel w) of
           LaunchFailed \<Rightarrow> (Inl OSError, w\<lparr>launched := launched w @ [entry]\<rparr>)
         | Exited rc fs' chans' k' \<Rightarrow>
             (Inr rc, w\<lparr>fs := fs', chans := chans', kernel := k',
                        launched := launched w @ [entry\<lparr>l_returncode := Some rc\<rparr>]\<rparr>))"

subsection \<open>The Win32 calls\<close>

text \<open>
  \<^verbatim>\<open>pywin32\<close> is not part of the repository; its three calls are parameters. The
  arguments of \<^verbatim>\<open>win32event.CreateSemaphore(SemaphoreAttributes, InitialCount,
  MaximumCount, SemaphoreName)\<close> are kept by role (the attributes are always
  \<^verbatim>\<open>None\<close>). \<^verbatim>\<open>win32event.ReleaseSemaphore(handle, n)\<close> returns the count before the
  release.
\<close>

record sem_args =
  InitialCount :: int
  MaximumCount :: int
  SemaphoreName :: string

record 'k win32 =
  CreateSemaphore :: "sem_args \<Rightarrow> (int, 'k) py"
  ReleaseSemaphore :: "int \<Rightarrow> int \<Rightarrow> (int, 'k) py"
  CloseHandle :: "int \<Rightarrow> (unit, 'k) py"

definition in_kernel :: "('a, 'k) py \<Rightarrow> ('a, 'k world) py" where
  "in_kernel m w = (case m (kernel w) of (r, k) \<Rightarrow> (r, w\<lparr>kernel := k\<rparr>))"

section \<open>The semaphore pool (Windows)\<close>

text \<open>
  \<^verbatim>\<open>create_sem(sem_name, job_count)\<close>. The call in the source is
  \<^verbatim>\<open>win32event.CreateSemaphore(None, job_count, job_count - 1, sem_name)\<close>, and the
  value stored under \<^verbatim>\<open>MAKEFLAGS\<close> is the plain string literal
  \<^verbatim>\<open>" -j{job_count} --jobserver-auth="\<close> followed by the name.
\<close>

definition create_sem ::
  "'k win32 \<Rightarrow> string \<Rightarrow> int \<Rightarrow> (int \<times> (string \<rightharpoonup> string), 'k world) py" where
  "create_sem api sem_name job_count =
     and_then (py_assert (job_count > 0) ''Token count must be strictly positive'') (\<lambda>_.
     and_then (in_kernel (CreateSemaphore api
         \<lparr>InitialCount = job_count, MaximumCount = job_count - 1, SemaphoreName = sem_name\<rparr>)) (\<lambda>handle.
     and_then (py_assert (handle \<noteq> 0) ''Error creating Win32 semaphore'') (\<lambda>_.
     and_then get_environ (\<lambda>env.
     return (handle, env(''MAKEFLAGS'' \<mapsto> '' -j{job_count} --jobserver-auth='' @ sem_name))))))"

definition missing_message :: "int \<Rightarrow> int \<Rightarrow> string" where
  "missing_message expected_count read_count =
     ''ERROR: '' @ str_int (expected_count - read_count)
       @ '' were missing from the token pool (got '' @ str_int read_count
       @ '', expected '' @ str_int expected_count @ '')''"

definition extra_message :: "int \<Rightarrow> int \<Rightarrow> string" where
  "extra_message expected_count read_count =
     ''ERROR: '' @ str_int (read_count - expected_count)
       @ '' extra tokens were released to the token pool (got '' @ str_int read_count
       @ '', expected '' @ str_int expected_count @ '')''"

definition check_sem_count :: "'k win32 \<Rightarrow> int \<Rightarrow> int \<Rightarrow> (int, 'k world) py" where
  "check_sem_count api handle job_count =
     (if job_count \<le> 1 then return 0
      else
        (let expected_count = job_count - 1
         in and_then (in_kernel (ReleaseSemaphore api handle 1)) (\<lambda>read_count.
            if read_count < expected_count then
              and_then (print_stderr (missing_message expected_count read_count)) (\<lambda>_. return 1)
            else if read_count > expected_count then
              and_then (print_stderr (extra_message expected_count read_count)) (\<lambda>_. return 1)
            else return 0)))"

section \<open>The pipe and FIFO pools (Posix)\<close>

definition pipe_makeflags :: "int \<Rightarrow> nat \<Rightarrow> nat \<Rightarrow> string" where
  "pipe_makeflags job_count read_fd write_fd =
     '' -j'' @ str_int job_count
       @ '' --jobserver-fds='' @ str_int (int read_fd) @ '','' @ str_int (int write_fd)
       @ '' --jobserver-auth='' @ str_int (int read_fd) @ '','' @ str_int (int write_fd)"

definition create_pipe :: "int \<Rightarrow> (nat \<times> nat \<times> (string \<rightharpoonup> string), 'k world) py" where
  "create_pipe job_count =
     and_then os_pipe (\<lambda>(read_fd, write_fd).
     and_then (os_set_inheritable read_fd True) (\<lambda>_.
     and_then (os_set_inheritable write_fd True) (\<lambda>_.
     and_then (py_assert (job_count > 0) ''Token count must be strictly positive'') (\<lambda>_.
     and_then (os_write write_fd (replicate (nat (job_count - 1)) CHR ''x'')) (\<lambda>_.
     and_then get_environ (\<lambda>env.
     return (read_fd, write_fd,
             env(''MAKEFLAGS'' \<mapsto> pipe_makeflags job_count read_fd write_fd))))))))"

definition fifo_makeflags :: "int \<Rightarrow> string \<Rightarrow> string" where
  "fifo_makeflags job_count path =
     '' -j'' @ str_int job_count @ '' --jobserver-auth=fifo:'' @ path"

definition create_fifo ::
  "string \<Rightarrow> int \<Rightarrow> (nat \<times> nat \<times> (string \<rightharpoonup> string), 'k world) py" where
  "create_fifo path job_count =
     and_then (os_path_exists path) (\<lambda>exists.
     and_then (if exists then os_remove path else return ()) (\<lambda>_.
     and_then (os_mkfifo path) (\<lambda>_.
     and_then (os_open path ReadEnd True) (\<lambda>read_fd.
     and_then (os_open path WriteEnd True) (\<lambda>write_fd.
     and_then (py_assert (job_count > 0) ''Token count must be strictly positive'') (\<lambda>_.
     and_then (os_write write_fd (replicate (nat (job_count - 1)) CHR ''x'')) (\<lambda>_.
     and_then get_environ (\<lambda>env.
     return (read_fd, write_fd,
             env(''MAKEFLAGS'' \<mapsto> fifo_makeflags job_count path))))))))))"

text \<open>How many bytes a descriptor has waiting: the measure of the drain loop.\<close>

definition tokens_readable :: "nat \<Rightarrow> 'k world \<Rightarrow> nat" where
  "tokens_readable fd w =
     (case map_of (fds w) fd of None \<Rightarrow> 0 | Some e \<Rightarrow> length (chans w (fd_chan e)))"

text \<open>
  The drain loop of \<^verbatim>\<open>check_pipe_tokens\<close>: read one byte at a time until the read
  returns nothing or raises \<^verbatim>\<open>BlockingIOError\<close>.
\<close>

function read_tokens :: "nat \<Rightarrow> int \<Rightarrow> (int, 'k world) py" where
  "read_tokens read_fd read_count w =
     (case os_read read_fd 1 w of
        (Inr token, w1) \<Rightarrow>
          (if length token = 0 then (Inr read_count, w1)
           else read_tokens read_fd (read_count + 1) w1)
      | (Inl BlockingIOError, w1) \<Rightarrow> (Inr read_count, w1)
      | (Inl e, w1) \<Rightarrow> (Inl e, w1))"
  by pat_completeness auto

termination read_tokens
  apply (relation "measure (\<lambda>(fd, n, w). tokens_readable fd w)")
   apply simp
  apply (auto simp: os_read_def tokens_readable_def split: option.splits if_splits)
  done

declare read_tokens.simps [simp del]

definition check_pipe_tokens :: "nat \<Rightarrow> int \<Rightarrow> (int, 'k world) py" where
  "check_pipe_tokens read_fd job_count =
     (if job_count \<le> 1 then return 0
      else
        (let expected_count = job_count - 1
         in and_then (os_set_blocking read_fd False) (\<lambda>_.
            and_then (read_tokens read_fd 0) (\<lambda>read_count.
            if read_count < expected_count then
              and_then (print_stderr (missing_message expected_count read_count)) (\<lambda>_. return 1)
            else if read_count > expected_count then
              and_then (print_stderr (extra_message expected_count read_count)) (\<lambda>_. return 1)
            else return 0))))"

section \<open>The lifecycle manager\<close>

text \<open>
  The parsed command line. \<^verbatim>\<open>--name\<close> exists on Windows only, \<^verbatim>\<open>--pipe\<close> and
  \<^verbatim>\<open>--fifo\<close> on Posix only.
\<close>

record args =
  args_help_usage :: bool
  args_command :: "string list"
  args_job_count :: int
  args_check :: bool
  args_name :: string
  args_pipe :: bool
  args_fifo :: string

text \<open>
  The local variables of \<^verbatim>\<open>main\<close> that its \<^verbatim>\<open>finally\<close> block reads. A variable no
  assignment has reached is \<open>None\<close>, and reading it raises.
\<close>

record locals =
  var_read_fd :: "nat option"
  var_write_fd :: "nat option"
  var_ret :: "int option"
  var_delete_fifo :: string
  var_exit_code :: int

definition in_world :: "('a, 'k world) py \<Rightarrow> ('a, locals \<times> 'k world) py" where
  "in_world m s = (case m (snd s) of (r, w) \<Rightarrow> (r, (fst s, w)))"

definition assign :: "(locals \<Rightarrow> locals) \<Rightarrow> (unit, locals \<times> 'k world) py" where
  "assign f s = (Inr (), (f (fst s), snd s))"

definition read_var :: "(locals \<Rightarrow> 'a option) \<Rightarrow> string \<Rightarrow> ('a, locals \<times> 'k world) py" where
  "read_var v name s =
     (case v (fst s) of None \<Rightarrow> (Inl (UnboundLocalError name), s) | Some x \<Rightarrow> (Inr x, s))"

definition get_var :: "(locals \<Rightarrow> 'a) \<Rightarrow> ('a, locals \<times> 'k world) py" where
  "get_var v s = (Inr (v (fst s)), s)"

definition with_locals :: "locals \<Rightarrow> ('a, locals \<times> 'k world) py \<Rightarrow> ('a, 'k world) py" where
  "with_locals l m w = (case m (l, w) of (r, s) \<Rightarrow> (r, snd s))"

text \<open>The usage text goes to standard output, which the model does not keep.\<close>

definition print_usage :: "(int, 'k world) py" where
  "print_usage = return 0"

text \<open>The body of the \<^verbatim>\<open>try\<close> statement of the Posix branch.\<close>

definition posix_try :: "'k child \<Rightarrow> args \<Rightarrow> (unit, locals \<times> 'k world) py" where
  "posix_try child args =
     and_then
       (if args_pipe args then
          and_then (in_world (create_pipe (args_job_count args))) (\<lambda>(read_fd, write_fd, env).
          and_then (assign (\<lambda>l. l\<lparr>var_read_fd := Some read_fd, var_write_fd := Some write_fd\<rparr>)) (\<lambda>_.
          and_then (in_world (subprocess_run child (args_command args) (Some env) [read_fd, write_fd])) (\<lambda>ret.
          assign (\<lambda>l. l\<lparr>var_ret := Some ret\<rparr>))))
        else if args_fifo args \<noteq> [] then
          and_then (in_world (create_fifo (args_fifo args) (args_job_count args))) (\<lambda>(read_fd, write_fd, env).
          and_then (assign (\<lambda>l. l\<lparr>var_read_fd := Some read_fd, var_write_fd := Some write_fd\<rparr>)) (\<lambda>_.
          and_then (in_world (subprocess_run child (args_command args) (Some env) [])) (\<lambda>ret.
          and_then (assign (\<lambda>l. l\<lparr>var_ret := Some ret\<rparr>)) (\<lambda>_.
          assign (\<lambda>l. l\<lparr>var_delete_fifo := args_fifo args\<rparr>)))))
        else return ())
       (\<lambda>_.
        and_then (read_var var_ret ''ret'') (\<lambda>ret.
        and_then (assign (\<lambda>l. l\<lparr>var_exit_code := ret\<rparr>)) (\<lambda>_.
        if ret = 0 \<and> args_check args then
          and_then (read_var var_read_fd ''read_fd'') (\<lambda>read_fd.
          and_then (in_world (check_pipe_tokens read_fd (args_job_count args))) (\<lambda>exit_code.
          assign (\<lambda>l. l\<lparr>var_exit_code := exit_code\<rparr>)))
        else return ())))"

text \<open>The \<^verbatim>\<open>finally\<close> block of the Posix branch.\<close>

definition posix_finally :: "(unit, locals \<times> 'k world) py" where
  "posix_finally =
     and_then (read_var var_read_fd ''read_fd'') (\<lambda>read_fd.
     and_then (in_world (os_close read_fd)) (\<lambda>_.
     and_then (read_var var_write_fd ''write_fd'') (\<lambda>write_fd.
     and_then (in_world (os_close write_fd)) (\<lambda>_.
     and_then (get_var var_delete_fifo) (\<lambda>delete_fifo.
     if delete_fifo \<noteq> [] then in_world (os_remove delete_fifo) else return ())))))"

text \<open>
  \<^verbatim>\<open>main()\<close> from the parsed arguments on. \<open>is_windows\<close> is the module constant
  \<^verbatim>\<open>_IS_WINDOWS\<close>. The result is the value handed to \<^verbatim>\<open>sys.exit\<close>.
\<close>

definition main :: "bool \<Rightarrow> 'k win32 \<Rightarrow> 'k child \<Rightarrow> args \<Rightarrow> (int, 'k world) py" where
  "main is_windows api child args =
     (if args_help_usage args then print_usage
      else if args_command args = [] then raise (SystemExit 2)
      else
        (let job_count = args_job_count args
         in if job_count \<le> 0 then
              subprocess_run child (args_command args) None []
            else if is_windows then
              and_then (create_sem api (args_name args) job_count) (\<lambda>(handle, env).
              try_finally
                (and_then (subprocess_run child (args_command args) (Some env) []) (\<lambda>exit_code.
                 if exit_code = 0 \<and> args_check args
                 then check_sem_count api handle job_count
                 else return exit_code))
                (in_kernel (CloseHandle api handle)))
            else
              with_locals
                \<lparr>var_read_fd = None, var_write_fd = None, var_ret = None,
                 var_delete_fifo = [], var_exit_code = 0\<rparr>
                (and_then (try_finally (posix_try child args) posix_finally) (\<lambda>_.
                 get_var var_exit_code))))"

text \<open>
  The script ends with \<^verbatim>\<open>sys.exit(main())\<close>: the status of the process is what \<^verbatim>\<open>main\<close>
  returns, or 1 when an exception leaves \<^verbatim>\<open>main\<close> (\<^verbatim>\<open>SystemExit\<close> carries its own
  status). A run that hangs has none.
\<close>

definition exit_status :: "exn + int \<Rightarrow> int option" where
  "exit_status r =
     (case r of
        Inr code \<Rightarrow> Some code
      | Inl (SystemExit n) \<Rightarrow> Some n
      | Inl Hang \<Rightarrow> None
      | Inl _ \<Rightarrow> Some 1)"

section \<open>Auxiliary notions\<close>

text \<open>A computation keeps an observation of the state when no run of it changes it.\<close>

definition keeps :: "('s \<Rightarrow> 'x) \<Rightarrow> ('a, 's) py \<Rightarrow> bool" where
  "keeps obs m = (\<forall>s. obs (snd (m s)) = obs s)"

text \<open>
  What the verification is to report for an expected and an observed token count, in
  the words of the specification: the number of missing tokens when fewer came back,
  the number of extra tokens when more did, and nothing when the counts agree.
\<close>

definition spec_discrepancy_report :: "int \<Rightarrow> int \<Rightarrow> string list" where
  "spec_discrepancy_report expected actual =
     (if actual < expected then
        [''ERROR: '' @ str_int (expected - actual)
           @ '' were missing from the token pool (got '' @ str_int actual
           @ '', expected '' @ str_int expected @ '')'']
      else if actual > expected then
        [''ERROR: '' @ str_int (actual - expected)
           @ '' extra tokens were released to the token pool (got '' @ str_int actual
           @ '', expected '' @ str_int expected @ '')'']
      else [])"

text \<open>The bytes waiting in the channel that \<open>read_fd\<close> reads and \<open>write_fd\<close> writes;
  \<open>None\<close> when the two are not the two ends of one channel.\<close>

definition pool_tokens :: "nat \<Rightarrow> nat \<Rightarrow> 'k world \<Rightarrow> string option" where
  "pool_tokens read_fd write_fd w =
     (case (map_of (fds w) read_fd, map_of (fds w) write_fd) of
        (Some r, Some x) \<Rightarrow>
          (if fd_dir r = ReadEnd \<and> fd_dir x = WriteEnd \<and> fd_chan r = fd_chan x
           then Some (chans w (fd_chan r)) else None)
      | _ \<Rightarrow> None)"

text \<open>
  The number of tokens in the pool at the moment the child has exited: the bytes
  waiting in the channel behind the read descriptor, or the count that
  \<^verbatim>\<open>ReleaseSemaphore\<close> gives for the semaphore. \<open>None\<close> when the pool was not created or
  the child did not run.
\<close>

definition tokens_after_child ::
  "bool \<Rightarrow> 'k win32 \<Rightarrow> 'k child \<Rightarrow> args \<Rightarrow> 'k world \<Rightarrow> int option" where
  "tokens_after_child is_windows api child args w =
     (if is_windows then
        (case create_sem api (args_name args) (args_job_count args) w of
           (Inr (handle, env), w1) \<Rightarrow>
             (case subprocess_run child (args_command args) (Some env) [] w1 of
                (Inr rc, w2) \<Rightarrow>
                  (case ReleaseSemaphore api handle 1 (kernel w2) of
                     (Inr n, k) \<Rightarrow> Some n
                   | (Inl e, k) \<Rightarrow> None)
              | (Inl e, w2) \<Rightarrow> None)
         | (Inl e, w1) \<Rightarrow> None)
      else if args_pipe args then
        (case create_pipe (args_job_count args) w of
           (Inr (read_fd, write_fd, env), w1) \<Rightarrow>
             (case subprocess_run child (args_command args) (Some env) [read_fd, write_fd] w1 of
                (Inr rc, w2) \<Rightarrow>
                  map_option (\<lambda>e. int (length (chans w2 (fd_chan e)))) (map_of (fds w2) read_fd)
              | (Inl e, w2) \<Rightarrow> None)
         | (Inl e, w1) \<Rightarrow> None)
      else if args_fifo args \<noteq> [] then
        (case create_fifo (args_fifo args) (args_job_count args) w of
           (Inr (read_fd, write_fd, env), w1) \<Rightarrow>
             (case subprocess_run child (args_command args) (Some env) [] w1 of
                (Inr rc, w2) \<Rightarrow>
                  map_option (\<lambda>e. int (length (chans w2 (fd_chan e)))) (map_of (fds w2) read_fd)
              | (Inl e, w2) \<Rightarrow> None)
         | (Inl e, w1) \<Rightarrow> None)
      else None)"

subsection \<open>Example inputs\<close>

text \<open>
  A Win32 interface that grants every request, over a single semaphore; a process
  with the three standard descriptors, an empty file system that refuses nothing and
  the pipe buffer sizes of Linux; and four child commands: one that exits with a
  given code and touches nothing, one that takes a token from every channel and
  never returns it, one that cannot be launched, and one that removes the FIFO and
  exits with 3.
\<close>

record sem_state =
  sem_count :: int
  sem_max :: int

definition lenient_api :: "sem_state win32" where
  "lenient_api =
     \<lparr>CreateSemaphore = (\<lambda>a k. (Inr 1, \<lparr>sem_count = InitialCount a, sem_max = MaximumCount a\<rparr>)),
      ReleaseSemaphore = (\<lambda>h n k. (Inr (sem_count k), k\<lparr>sem_count := sem_count k + n\<rparr>)),
      CloseHandle = (\<lambda>h k. (Inr (), k))\<rparr>"

definition no_semaphore :: sem_state where
  "no_semaphore = \<lparr>sem_count = 0, sem_max = 0\<rparr>"

definition stdio :: "(nat \<times> fd_entry) list" where
  "stdio =
     [(0, \<lparr>fd_chan = 0, fd_dir = ReadEnd, fd_nonblock = False, fd_inheritable = True\<rparr>),
      (1, \<lparr>fd_chan = 0, fd_dir = WriteEnd, fd_nonblock = False, fd_inheritable = True\<rparr>),
      (2, \<lparr>fd_chan = 0, fd_dir = WriteEnd, fd_nonblock = False, fd_inheritable = True\<rparr>)]"

definition example_world :: "sem_state world" where
  "example_world =
     \<lparr>os_environ = [''PATH'' \<mapsto> ''/usr/bin'', ''MAKEFLAGS'' \<mapsto> ''-k''],
      fs = Map.empty, fs_refuses = Map.empty, chans = (\<lambda>_. []), pipe_capacity = 65536,
      pipe_buf = 4096, next_chan = 1, fds = stdio,
      stderr = [], launched = [], kernel = no_semaphore\<rparr>"

definition example_args :: args where
  "example_args =
     \<lparr>args_help_usage = False, args_command = [''make''], args_job_count = 4,
      args_check = True, args_name = ''jobserver_tokens'', args_pipe = False,
      args_fifo = ''/tmp/jobserver_tokens''\<rparr>"

definition quiet_child :: "int \<Rightarrow> 'k child" where
  "quiet_child rc cmd env pass_fds f c k = Exited rc f c k"

definition greedy_child :: "'k child" where
  "greedy_child cmd env pass_fds f c k = Exited 0 f (\<lambda>i. drop 1 (c i)) k"

definition no_such_command :: "'k child" where
  "no_such_command cmd env pass_fds f c k = LaunchFailed"

definition fifo_removing_child :: "'k child" where
  "fifo_removing_child cmd env pass_fds f c k =
     Exited 3 (f(''/tmp/jobserver_tokens'' := None)) c k"

definition two_tokens_world :: "sem_state world" where
  "two_tokens_world =
     example_world\<lparr>chans := (chans example_world)(1 := ''xx''),
       fds := (3, \<lparr>fd_chan = 1, fd_dir = ReadEnd, fd_nonblock = True, fd_inheritable = False\<rparr>) # stdio,
       kernel := \<lparr>sem_count = 4, sem_max = 9\<rparr>\<rparr>"

section \<open>Properties of the operating-system model\<close>

lemmas py_defs = return_def raise_def and_then_def py_assert_def get_environ_def in_kernel_def
  print_stderr_def

lemma lowest_free_from_fresh:
  "card (set used \<inter> {n..}) \<le> k \<Longrightarrow> lowest_free_from used n k \<notin> set used"
proof (induction k arbitrary: n)
  case 0
  then have "set used \<inter> {n..} = {}" by simp
  then show ?case by auto
next
  case (Suc k)
  show ?case
  proof (cases "n \<in> set used")
    case True
    have "set used \<inter> {Suc n..} = (set used \<inter> {n..}) - {n}" by auto
    moreover have "n \<in> set used \<inter> {n..}" using True by simp
    ultimately have "card (set used \<inter> {Suc n..}) \<le> k"
      using Suc.prems by simp
    then show ?thesis using True Suc.IH by simp
  next
    case False
    then show ?thesis by simp
  qed
qed

lemma lowest_free_fresh: "lowest_free used \<notin> set used"
proof -
  have "card (set used \<inter> {0..}) \<le> length used"
    by (simp add: card_length)
  then show ?thesis
    unfolding lowest_free_def by (rule lowest_free_from_fresh)
qed

lemma lowest_free_Cons_neq: "lowest_free (fd # used) \<noteq> fd"
  using lowest_free_fresh [of "fd # used"] by auto

lemma os_pipe_returns:
  "os_pipe w =
     (let r = lowest_free (map fst (fds w)); wr = lowest_free (r # map fst (fds w)); c = next_chan w
      in (Inr (r, wr),
          w\<lparr>chans := (chans w)(c := []), next_chan := Suc c,
            fds := (wr, \<lparr>fd_chan = c, fd_dir = WriteEnd, fd_nonblock = False, fd_inheritable = False\<rparr>)
                 # (r, \<lparr>fd_chan = c, fd_dir = ReadEnd, fd_nonblock = False, fd_inheritable = False\<rparr>)
                 # fds w\<rparr>))"
  by (simp add: os_pipe_def new_chan_def new_fd_def py_defs Let_def)

lemma create_pipe_returns:
  assumes "0 < job_count" and "nat (job_count - 1) \<le> pipe_capacity w"
  shows "create_pipe job_count w =
     (let r = lowest_free (map fst (fds w)); wr = lowest_free (r # map fst (fds w)); c = next_chan w
      in (Inr (r, wr, (os_environ w)(''MAKEFLAGS'' \<mapsto> pipe_makeflags job_count r wr)),
          w\<lparr>chans := (chans w)(c := replicate (nat (job_count - 1)) CHR ''x''),
            next_chan := Suc c,
            fds := (wr, \<lparr>fd_chan = c, fd_dir = WriteEnd, fd_nonblock = False, fd_inheritable = True\<rparr>)
                 # (r, \<lparr>fd_chan = c, fd_dir = ReadEnd, fd_nonblock = False, fd_inheritable = True\<rparr>)
                 # fds w\<rparr>))"
  using assms lowest_free_Cons_neq [of "lowest_free (map fst (fds w))" "map fst (fds w)"]
  by (simp add: create_pipe_def os_pipe_returns os_set_inheritable_def os_write_def py_defs
      Let_def)

lemma create_pipe_Inr:
  assumes "create_pipe job_count w = (Inr (read_fd, write_fd, env), w')"
  shows "0 < job_count \<and> nat (job_count - 1) \<le> pipe_capacity w
       \<and> read_fd = lowest_free (map fst (fds w))
       \<and> write_fd = lowest_free (read_fd # map fst (fds w))
       \<and> env = (os_environ w)(''MAKEFLAGS'' \<mapsto> pipe_makeflags job_count read_fd write_fd)
       \<and> w' = w\<lparr>chans := (chans w)(next_chan w := replicate (nat (job_count - 1)) CHR ''x''),
               next_chan := Suc (next_chan w),
               fds := (write_fd, \<lparr>fd_chan = next_chan w, fd_dir = WriteEnd, fd_nonblock = False,
                                   fd_inheritable = True\<rparr>)
                    # (read_fd, \<lparr>fd_chan = next_chan w, fd_dir = ReadEnd, fd_nonblock = False,
                                  fd_inheritable = True\<rparr>)
                    # fds w\<rparr>"
  using assms lowest_free_Cons_neq [of "lowest_free (map fst (fds w))" "map fst (fds w)"]
  by (auto simp: create_pipe_def os_pipe_returns os_set_inheritable_def os_write_def py_defs
      Let_def split: if_splits)

text \<open>What \<^verbatim>\<open>create_fifo\<close> leaves when it returns: the write is whole when it fits and
  cut to the room there is when it does not.\<close>

lemma create_fifo_returns:
  assumes "0 < job_count" and "fs w path \<noteq> Some Directory" and "fs_refuses w path = None"
    and "nat (job_count - 1) \<le> pipe_capacity w
         \<or> 0 < pipe_capacity w \<and> pipe_buf w < nat (job_count - 1)"
  shows "create_fifo path job_count w =
     (let r = lowest_free (map fst (fds w)); wr = lowest_free (r # map fst (fds w)); c = next_chan w
      in (Inr (r, wr, (os_environ w)(''MAKEFLAGS'' \<mapsto> fifo_makeflags job_count path)),
          w\<lparr>fs := (fs w)(path \<mapsto> Fifo c),
            chans := (chans w)(c := replicate (min (pipe_capacity w) (nat (job_count - 1))) CHR ''x''),
            next_chan := Suc c,
            fds := (wr, \<lparr>fd_chan = c, fd_dir = WriteEnd, fd_nonblock = True, fd_inheritable = False\<rparr>)
                 # (r, \<lparr>fd_chan = c, fd_dir = ReadEnd, fd_nonblock = True, fd_inheritable = False\<rparr>)
                 # fds w\<rparr>))"
proof (cases "fs w path")
  case None
  then show ?thesis
    using assms(1,3,4) lowest_free_Cons_neq [of "lowest_free (map fst (fds w))" "map fst (fds w)"]
    by (auto simp: create_fifo_def os_path_exists_def os_mkfifo_def new_chan_def os_open_def
        new_fd_def reader_open_def os_write_def py_defs Let_def min_def)
next
  case (Some nd)
  with assms(2) have "nd \<noteq> Directory" by simp
  then show ?thesis
    using Some assms(1,3,4) lowest_free_Cons_neq [of "lowest_free (map fst (fds w))" "map fst (fds w)"]
    by (cases nd)
      (auto simp: create_fifo_def os_path_exists_def os_remove_def os_mkfifo_def new_chan_def
        os_open_def new_fd_def reader_open_def os_write_def py_defs Let_def min_def)
qed

lemma create_fifo_Inr:
  assumes "create_fifo path job_count w = (Inr (read_fd, write_fd, env), w')"
  shows "0 < job_count \<and> fs w path \<noteq> Some Directory \<and> fs_refuses w path = None
       \<and> read_fd = lowest_free (map fst (fds w))
       \<and> write_fd = lowest_free (read_fd # map fst (fds w))
       \<and> env = (os_environ w)(''MAKEFLAGS'' \<mapsto> fifo_makeflags job_count path)
       \<and> w' = w\<lparr>fs := (fs w)(path \<mapsto> Fifo (next_chan w)),
               chans := (chans w)(next_chan w :=
                  replicate (min (pipe_capacity w) (nat (job_count - 1))) CHR ''x''),
               next_chan := Suc (next_chan w),
               fds := (write_fd, \<lparr>fd_chan = next_chan w, fd_dir = WriteEnd, fd_nonblock = True,
                                   fd_inheritable = False\<rparr>)
                    # (read_fd, \<lparr>fd_chan = next_chan w, fd_dir = ReadEnd, fd_nonblock = True,
                                  fd_inheritable = False\<rparr>)
                    # fds w\<rparr>"
proof (cases "fs w path")
  case None
  then show ?thesis
    using assms lowest_free_Cons_neq [of "lowest_free (map fst (fds w))" "map fst (fds w)"]
    by (auto simp: create_fifo_def os_path_exists_def os_mkfifo_def new_chan_def os_open_def
        new_fd_def reader_open_def os_write_def py_defs Let_def min_def
        split: if_splits option.splits)
next
  case (Some nd)
  then show ?thesis
    using assms lowest_free_Cons_neq [of "lowest_free (map fst (fds w))" "map fst (fds w)"]
    by (cases nd)
      (auto simp: create_fifo_def os_path_exists_def os_remove_def os_mkfifo_def new_chan_def
        os_open_def new_fd_def reader_open_def os_write_def py_defs Let_def min_def
        split: if_splits option.splits)
qed

lemma create_fifo_directory:
  "fs w path = Some Directory \<Longrightarrow> create_fifo path job_count w = (Inl IsADirectoryError, w)"
  by (simp add: create_fifo_def os_path_exists_def os_remove_def py_defs)

lemma read_tokens_drains:
  assumes "map_of (fds w) fd = Some e" and "fd_dir e = ReadEnd"
    and "fd_nonblock e \<or> \<not> writer_open (fd_chan e) w"
    and "chans w (fd_chan e) = buf"
  shows "read_tokens fd n w = (Inr (n + int (length buf)), w\<lparr>chans := (chans w)(fd_chan e := [])\<rparr>)"
  using assms
proof (induction buf arbitrary: w n)
  case Nil
  then have "(chans w)(fd_chan e := []) = chans w"
    by auto
  with Nil show ?case
    by (auto simp: read_tokens.simps [of fd n w] os_read_def)
next
  case (Cons b buf)
  let ?w1 = "w\<lparr>chans := (chans w)(fd_chan e := buf)\<rparr>"
  have rd: "os_read fd (Suc 0) w = (Inr [b], ?w1)"
    using Cons.prems by (simp add: os_read_def)
  have step: "read_tokens fd n w = read_tokens fd (n + 1) ?w1"
    by (subst read_tokens.simps) (simp add: rd)
  have "read_tokens fd (n + 1) ?w1
          = (Inr (n + 1 + int (length buf)), ?w1\<lparr>chans := (chans ?w1)(fd_chan e := [])\<rparr>)"
    using Cons.prems by (intro Cons.IH) (simp_all add: writer_open_def)
  moreover have "?w1\<lparr>chans := (chans ?w1)(fd_chan e := [])\<rparr> = w\<lparr>chans := (chans w)(fd_chan e := [])\<rparr>"
    by simp
  moreover have "n + 1 + int (length buf) = n + int (length (b # buf))"
    by simp
  ultimately show ?case
    unfolding step by (simp only:)
qed

lemma check_pipe_tokens_returns:
  assumes "1 < job_count" and "map_of (fds w) fd = Some e" and "fd_dir e = ReadEnd"
  shows "check_pipe_tokens fd job_count w =
     (let expected_count = job_count - 1;
          read_count = int (length (chans w (fd_chan e)));
          w1 = w\<lparr>fds := AList.update fd (e\<lparr>fd_nonblock := True\<rparr>) (fds w),
                 chans := (chans w)(fd_chan e := [])\<rparr>
      in if read_count < expected_count
         then (Inr 1, w1\<lparr>stderr := stderr w @ [missing_message expected_count read_count]\<rparr>)
         else if read_count > expected_count
         then (Inr 1, w1\<lparr>stderr := stderr w @ [extra_message expected_count read_count]\<rparr>)
         else (Inr 0, w1))"
proof -
  let ?w0 = "w\<lparr>fds := AList.update fd (e\<lparr>fd_nonblock := True\<rparr>) (fds w)\<rparr>"
  have sb: "os_set_blocking fd False w = (Inr (), ?w0)"
    using assms by (simp add: os_set_blocking_def)
  have "read_tokens fd 0 ?w0
          = (Inr (0 + int (length (chans w (fd_chan e)))),
             ?w0\<lparr>chans := (chans ?w0)(fd_chan (e\<lparr>fd_nonblock := True\<rparr>) := [])\<rparr>)"
    using assms by (intro read_tokens_drains) (simp_all add: update_conv')
  then show ?thesis
    using assms(1) by (simp add: check_pipe_tokens_def sb py_defs Let_def)
qed

lemma create_sem_Inr:
  assumes "create_sem api sem_name job_count w = (Inr (handle, env), w')"
  shows "env = (os_environ w)(''MAKEFLAGS'' \<mapsto> '' -j{job_count} --jobserver-auth='' @ sem_name)"
  using assms
  by (auto simp: create_sem_def py_defs split: if_splits prod.splits sum.splits)


lemma drain_counts:
  assumes "map_of (fds w) fd = Some e" and "fd_dir e = ReadEnd"
  shows "fst (and_then (os_set_blocking fd False) (\<lambda>_. read_tokens fd 0) w)
           = Inr (int (length (chans w (fd_chan e))))"
proof -
  let ?w0 = "w\<lparr>fds := AList.update fd (e\<lparr>fd_nonblock := True\<rparr>) (fds w)\<rparr>"
  have sb: "os_set_blocking fd False w = (Inr (), ?w0)"
    using assms by (simp add: os_set_blocking_def)
  have "read_tokens fd 0 ?w0
          = (Inr (0 + int (length (chans w (fd_chan e)))),
             ?w0\<lparr>chans := (chans ?w0)(fd_chan (e\<lparr>fd_nonblock := True\<rparr>) := [])\<rparr>)"
    using assms by (intro read_tokens_drains) (simp_all add: update_conv')
  then show ?thesis
    by (simp add: and_then_def sb)
qed

lemma pool_tokens_fresh_pair:
  assumes "wr \<noteq> r" and "fd_dir er = ReadEnd" and "fd_dir ew = WriteEnd" and "fd_chan er = c"
    and "fd_chan ew = c" and "fds w = (wr, ew) # (r, er) # rest"
  shows "pool_tokens r wr w = Some (chans w c)" and "map_of (fds w) r = Some er"
  using assms by (simp_all add: pool_tokens_def)

section \<open>What the manager leaves untouched\<close>

lemma keepsD: "keeps obs m \<Longrightarrow> m s = (r, s') \<Longrightarrow> obs s' = obs s"
  by (auto simp: keeps_def dest: spec [of _ s])

lemma keeps_return: "keeps obs (return a)"
  by (simp add: keeps_def return_def)

lemma keeps_raise: "keeps obs (raise e)"
  by (simp add: keeps_def raise_def)

lemma keeps_py_assert: "keeps obs (py_assert c msg)"
  by (simp add: py_assert_def keeps_return keeps_raise)

lemma keeps_and_then:
  assumes "keeps obs m" and "\<And>a. keeps obs (f a)"
  shows "keeps obs (and_then m f)"
  unfolding keeps_def
proof
  fix s
  show "obs (snd (and_then m f s)) = obs s"
  proof (cases "m s")
    case (Pair r s1)
    have s1: "obs s1 = obs s" by (rule keepsD [OF assms(1) Pair])
    show ?thesis
    proof (cases r)
      case (Inl e)
      with Pair s1 show ?thesis by (simp add: and_then_def)
    next
      case (Inr a)
      obtain r2 s2 where f: "f a s1 = (r2, s2)" by (cases "f a s1")
      have "obs s2 = obs s1" by (rule keepsD [OF assms(2) f])
      with Pair Inr s1 f show ?thesis by (simp add: and_then_def)
    qed
  qed
qed

lemma keeps_try_finally:
  assumes "keeps obs body" and "keeps obs fin"
  shows "keeps obs (try_finally body fin)"
  unfolding keeps_def
proof
  fix s
  obtain r s1 where b: "body s = (r, s1)" by (cases "body s")
  obtain r2 s2 where f: "fin s1 = (r2, s2)" by (cases "fin s1")
  from assms(1) b have "obs s1 = obs s" by (rule keepsD)
  moreover from assms(2) f have "obs s2 = obs s1" by (rule keepsD)
  ultimately show "obs (snd (try_finally body fin s)) = obs s"
    using b f by (auto simp: try_finally_def split: sum.splits exn.splits)
qed

lemma keeps_if: "keeps obs m \<Longrightarrow> keeps obs n \<Longrightarrow> keeps obs (if c then m else n)"
  by simp

lemma keeps_in_world: "keeps obs m \<Longrightarrow> keeps (\<lambda>s. obs (snd s)) (in_world m)"
  by (auto simp: keeps_def in_world_def split: prod.splits dest: keepsD [unfolded keeps_def])

lemma keeps_in_world_fst: "keeps fst (in_world m)"
  by (auto simp: keeps_def in_world_def split: prod.splits)

lemma keeps_assign: "keeps (\<lambda>s. obs (snd s)) (assign f)"
  by (simp add: keeps_def assign_def)

lemma keeps_read_var: "keeps obs (read_var v name)"
  by (simp add: keeps_def read_var_def split: option.splits)

lemma keeps_get_var: "keeps obs (get_var v)"
  by (simp add: keeps_def get_var_def)

lemma keeps_in_kernel: "keeps (\<lambda>w. (launched w, stderr w)) (in_kernel m)"
  by (simp add: keeps_def in_kernel_def split: prod.splits)

lemma keeps_os:
  "keeps (\<lambda>w. (launched w, stderr w)) get_environ"
  "keeps (\<lambda>w. (launched w, stderr w)) new_chan"
  "keeps (\<lambda>w. (launched w, stderr w)) (new_fd e)"
  "keeps (\<lambda>w. (launched w, stderr w)) (os_set_inheritable fd b)"
  "keeps (\<lambda>w. (launched w, stderr w)) (os_set_blocking fd b)"
  "keeps (\<lambda>w. (launched w, stderr w)) (os_write fd data)"
  "keeps (\<lambda>w. (launched w, stderr w)) (os_read fd n)"
  "keeps (\<lambda>w. (launched w, stderr w)) (os_close fd)"
  "keeps (\<lambda>w. (launched w, stderr w)) (os_path_exists path)"
  "keeps (\<lambda>w. (launched w, stderr w)) (os_remove path)"
  by (simp_all add: keeps_def get_environ_def new_chan_def new_fd_def os_set_inheritable_def
      os_set_blocking_def os_write_def os_read_def os_close_def os_path_exists_def os_remove_def
      Let_def split: option.splits node.splits)

lemma keeps_os_mkfifo: "keeps (\<lambda>w. (launched w, stderr w)) (os_mkfifo path)"
  by (simp add: keeps_def os_mkfifo_def new_chan_def and_then_def Let_def split: option.splits)

lemma keeps_os_open: "keeps (\<lambda>w. (launched w, stderr w)) (os_open path dir nb)"
  by (simp add: keeps_def os_open_def new_fd_def Let_def split: option.splits node.splits)

lemma keeps_os_pipe: "keeps (\<lambda>w. (launched w, stderr w)) os_pipe"
  unfolding os_pipe_def by (intro keeps_and_then keeps_os keeps_return)

lemma keeps_create_pipe: "keeps (\<lambda>w. (launched w, stderr w)) (create_pipe n)"
  unfolding create_pipe_def split_def
  by (intro keeps_and_then keeps_os keeps_os_pipe keeps_py_assert keeps_return)

lemma keeps_create_fifo: "keeps (\<lambda>w. (launched w, stderr w)) (create_fifo path n)"
  unfolding create_fifo_def
  by (intro keeps_and_then keeps_if keeps_os keeps_os_mkfifo keeps_os_open keeps_py_assert
      keeps_return)

lemma keeps_create_sem: "keeps (\<lambda>w. (launched w, stderr w)) (create_sem api name n)"
  unfolding create_sem_def
  by (intro keeps_and_then keeps_in_kernel keeps_os keeps_py_assert keeps_return)

lemma keeps_read_tokens:
  assumes "keeps obs (os_read fd 1)"
  shows "keeps obs (read_tokens fd n)"
  unfolding keeps_def
proof
  fix w :: "'a world"
  show "obs (snd (read_tokens fd n w)) = obs w"
    using assms
  proof (induction fd n w rule: read_tokens.induct)
    case (1 read_fd read_count w)
    obtain r w1 where rd: "os_read read_fd 1 w = (r, w1)" by (cases "os_read read_fd 1 w")
    have w1: "obs w1 = obs w"
      by (rule keepsD [OF "1.prems" rd])
    show ?case
    proof (cases r)
      case (Inl e)
      have "read_tokens read_fd read_count w = (if e = BlockingIOError then Inr read_count else Inl e, w1)"
        using rd Inl by (subst read_tokens.simps) (simp split: exn.splits)
      with w1 show ?thesis by simp
    next
      case (Inr token)
      show ?thesis
      proof (cases "length token = 0")
        case True
        have "read_tokens read_fd read_count w = (Inr read_count, w1)"
          using rd Inr True by (subst read_tokens.simps) simp
        with w1 show ?thesis by simp
      next
        case False
        have "read_tokens read_fd read_count w = read_tokens read_fd (read_count + 1) w1"
          using rd Inr False by (subst read_tokens.simps) simp
        moreover have "obs (snd (read_tokens read_fd (read_count + 1) w1)) = obs w1"
          using "1.IH" [OF rd [symmetric] Inr False "1.prems"] .
        ultimately show ?thesis using w1 by simp
      qed
    qed
  qed
qed

lemma keeps_log_read_tokens: "keeps (\<lambda>w. (launched w, stderr w)) (read_tokens fd n)"
  by (rule keeps_read_tokens) (rule keeps_os)

section \<open>Runs that return\<close>

lemma and_then_Inr:
  "and_then m f s = (Inr b, s') \<longleftrightarrow> (\<exists>a s1. m s = (Inr a, s1) \<and> f a s1 = (Inr b, s'))"
  by (auto simp: and_then_def split: prod.splits sum.splits)

lemma try_finally_Inr:
  "try_finally body fin s = (Inr b, s') \<longleftrightarrow> (\<exists>s1. body s = (Inr b, s1) \<and> fin s1 = (Inr (), s'))"
  by (auto simp: try_finally_def split: prod.splits sum.splits exn.splits)

lemma in_world_eq: "in_world m (l, w) = (r, (l', w')) \<longleftrightarrow> m w = (r, w') \<and> l' = l"
  by (auto simp: in_world_def split: prod.splits)

lemma assign_eq: "assign f (l, w) = (r, s') \<longleftrightarrow> r = Inr () \<and> s' = (f l, w)"
  by (auto simp: assign_def)

lemma read_var_Inr: "read_var v name (l, w) = (Inr x, s') \<longleftrightarrow> v l = Some x \<and> s' = (l, w)"
  by (auto simp: read_var_def split: option.splits)

lemma get_var_eq: "get_var v (l, w) = (r, s') \<longleftrightarrow> r = Inr (v l) \<and> s' = (l, w)"
  by (auto simp: get_var_def)

lemma return_eq: "return a s = (r, s') \<longleftrightarrow> r = Inr a \<and> s' = s"
  by (auto simp: return_def)

lemma subprocess_run_Inr:
  assumes "subprocess_run child cmd env pfds w = (Inr rc, w')"
  shows "launched w' = launched w @ [\<lparr>l_command = cmd,
            l_env = (case env of None \<Rightarrow> os_environ w | Some e \<Rightarrow> e),
            l_pass_fds = pfds, l_returncode = Some rc\<rparr>]
         \<and> stderr w' = stderr w \<and> fds w' = fds w"
  using assms by (auto simp: subprocess_run_def Let_def split: child_result.splits)

lemma check_pipe_tokens_Inr:
  assumes "check_pipe_tokens fd n w = (Inr c, w')"
  shows "launched w' = launched w
         \<and> (c = 0 \<and> stderr w' = stderr w
            \<or> c = 1 \<and> 1 < n \<and> (\<exists>msg. stderr w' = stderr w @ [msg]))"
proof (cases "n \<le> 1")
  case True
  with assms show ?thesis by (simp add: check_pipe_tokens_def return_def)
next
  case False
  with assms obtain w1 w2 read_count where
      sb: "os_set_blocking fd False w = (Inr (), w1)"
    and rt: "read_tokens fd 0 w1 = (Inr read_count, w2)"
    and fin: "(if read_count < n - 1 then
                 and_then (print_stderr (missing_message (n - 1) read_count)) (\<lambda>_. return 1)
               else if read_count > n - 1 then
                 and_then (print_stderr (extra_message (n - 1) read_count)) (\<lambda>_. return 1)
               else return 0) w2 = (Inr c, w')"
    by (auto simp: check_pipe_tokens_def Let_def and_then_Inr)
  have "(launched w1, stderr w1) = (launched w, stderr w)"
    by (rule keepsD [OF keeps_os(5) sb])
  moreover have "(launched w2, stderr w2) = (launched w1, stderr w1)"
    by (rule keepsD [OF keeps_log_read_tokens rt])
  ultimately show ?thesis
    using fin False
    by (auto simp: and_then_def print_stderr_def return_def split: if_splits)
qed

lemma check_sem_count_Inr:
  assumes "check_sem_count api h n w = (Inr c, w')"
  shows "launched w' = launched w
         \<and> (c = 0 \<and> stderr w' = stderr w
            \<or> c = 1 \<and> 1 < n \<and> (\<exists>msg. stderr w' = stderr w @ [msg]))"
proof (cases "n \<le> 1")
  case True
  with assms show ?thesis by (simp add: check_sem_count_def return_def)
next
  case False
  with assms obtain w1 read_count where
      rs: "in_kernel (ReleaseSemaphore api h 1) w = (Inr read_count, w1)"
    and fin: "(if read_count < n - 1 then
                 and_then (print_stderr (missing_message (n - 1) read_count)) (\<lambda>_. return 1)
               else if read_count > n - 1 then
                 and_then (print_stderr (extra_message (n - 1) read_count)) (\<lambda>_. return 1)
               else return 0) w1 = (Inr c, w')"
    by (auto simp: check_sem_count_def Let_def and_then_Inr)
  have "(launched w1, stderr w1) = (launched w, stderr w)"
    by (rule keepsD [OF keeps_in_kernel rs])
  then show ?thesis
    using fin False
    by (auto simp: and_then_def print_stderr_def return_def split: if_splits)
qed

lemma check_pipe_tokens_counts:
  assumes "1 < n" and "map_of (fds w) fd = Some e" and "fd_dir e = ReadEnd"
  shows "\<exists>w'. check_pipe_tokens fd n w
            = (Inr (if int (length (chans w (fd_chan e))) = n - 1 then 0 else 1), w')
          \<and> stderr w' = stderr w @ spec_discrepancy_report (n - 1) (int (length (chans w (fd_chan e))))
          \<and> launched w' = launched w"
  using check_pipe_tokens_returns [OF assms]
  by (auto simp: Let_def spec_discrepancy_report_def missing_message_def extra_message_def)

lemma check_sem_count_counts:
  assumes "check_sem_count api h n w = (Inr c, w')" and "1 < n"
  shows "\<exists>actual k. ReleaseSemaphore api h 1 (kernel w) = (Inr actual, k)
          \<and> c = (if actual = n - 1 then 0 else 1)
          \<and> stderr w' = stderr w @ spec_discrepancy_report (n - 1) actual
          \<and> launched w' = launched w"
proof -
  from assms obtain actual w1 where
      rs: "in_kernel (ReleaseSemaphore api h 1) w = (Inr actual, w1)"
    and fin: "(if actual < n - 1 then
                 and_then (print_stderr (missing_message (n - 1) actual)) (\<lambda>_. return 1)
               else if actual > n - 1 then
                 and_then (print_stderr (extra_message (n - 1) actual)) (\<lambda>_. return 1)
               else return 0) w1 = (Inr c, w')"
    by (auto simp: check_sem_count_def Let_def and_then_Inr)
  from rs obtain k where k: "ReleaseSemaphore api h 1 (kernel w) = (Inr actual, k)"
    and w1: "stderr w1 = stderr w" "launched w1 = launched w"
    by (auto simp: in_kernel_def split: prod.splits)
  consider (missing) "actual < n - 1" | (extra) "actual > n - 1" | (same) "actual = n - 1"
    by linarith
  then have "c = (if actual = n - 1 then 0 else 1)
          \<and> stderr w' = stderr w @ spec_discrepancy_report (n - 1) actual
          \<and> launched w' = launched w"
  proof cases
    case missing
    with fin w1 show ?thesis
      by (auto simp: and_then_def print_stderr_def return_def spec_discrepancy_report_def
          missing_message_def)
  next
    case extra
    with fin w1 show ?thesis
      by (auto simp: and_then_def print_stderr_def return_def spec_discrepancy_report_def
          extra_message_def)
  next
    case same
    with fin w1 show ?thesis
      by (auto simp: return_def spec_discrepancy_report_def)
  qed
  with k show ?thesis by blast
qed

lemma posix_finally_Inr:
  assumes "posix_finally (l, w) = (r, (l', w'))"
  shows "l' = l \<and> launched w' = launched w \<and> stderr w' = stderr w"
proof -
  have "keeps fst (posix_finally :: (unit, locals \<times> 'a world) py)"
    unfolding posix_finally_def
    by (intro keeps_and_then keeps_if keeps_in_world_fst keeps_read_var keeps_get_var keeps_return)
  moreover have "keeps (\<lambda>s. (launched (snd s), stderr (snd s))) (posix_finally :: (unit, locals \<times> 'a world) py)"
    unfolding posix_finally_def
    by (intro keeps_and_then keeps_if keeps_in_world [where obs = "\<lambda>w. (launched w, stderr w)"]
        keeps_os keeps_read_var keeps_get_var keeps_return)
  ultimately show ?thesis
    using assms by (auto dest: keepsD)
qed

lemma posix_try_Inr:
  assumes "posix_try child args (l, w) = (Inr (), (l', w'))" and unbound: "var_ret l = None"
  shows "\<exists>rc entry.
           launched w' = launched w @ [entry] \<and> l_command entry = args_command args
         \<and> l_returncode entry = Some rc
         \<and> (if args_check args \<and> rc = 0 \<and> 1 < args_job_count args
            then \<exists>actual. tokens_after_child False api child args w = Some actual
                   \<and> var_exit_code l' = (if actual = args_job_count args - 1 then 0 else 1)
                   \<and> stderr w' = stderr w @ spec_discrepancy_report (args_job_count args - 1) actual
            else var_exit_code l' = rc \<and> stderr w' = stderr w)
         \<and> (rc \<noteq> 0 \<longrightarrow> posix_try child (args\<lparr>args_check := False\<rparr>) (l, w) = (Inr (), (l', w')))"
proof -
  let ?n = "args_job_count args"
  from assms(1) obtain l1 w1 rc where
      run: "(if args_pipe args then
          and_then (in_world (create_pipe (args_job_count args))) (\<lambda>(read_fd, write_fd, env).
          and_then (assign (\<lambda>l. l\<lparr>var_read_fd := Some read_fd, var_write_fd := Some write_fd\<rparr>)) (\<lambda>_.
          and_then (in_world (subprocess_run child (args_command args) (Some env) [read_fd, write_fd])) (\<lambda>ret.
          assign (\<lambda>l. l\<lparr>var_ret := Some ret\<rparr>))))
        else if args_fifo args \<noteq> [] then
          and_then (in_world (create_fifo (args_fifo args) (args_job_count args))) (\<lambda>(read_fd, write_fd, env).
          and_then (assign (\<lambda>l. l\<lparr>var_read_fd := Some read_fd, var_write_fd := Some write_fd\<rparr>)) (\<lambda>_.
          and_then (in_world (subprocess_run child (args_command args) (Some env) [])) (\<lambda>ret.
          and_then (assign (\<lambda>l. l\<lparr>var_ret := Some ret\<rparr>)) (\<lambda>_.
          assign (\<lambda>l. l\<lparr>var_delete_fifo := args_fifo args\<rparr>)))))
        else return ()) (l, w) = (Inr (), (l1, w1))"
    and ret: "var_ret l1 = Some rc"
    and chk: "(if rc = 0 \<and> args_check args then
          and_then (read_var var_read_fd ''read_fd'') (\<lambda>read_fd.
          and_then (in_world (check_pipe_tokens read_fd (args_job_count args))) (\<lambda>exit_code.
          assign (\<lambda>l. l\<lparr>var_exit_code := exit_code\<rparr>)))
        else return ()) (l1\<lparr>var_exit_code := rc\<rparr>, w1) = (Inr (), (l', w'))"
    by (auto simp: posix_try_def and_then_Inr read_var_Inr assign_eq)
  have "\<exists>entry r e.
      launched w1 = launched w @ [entry] \<and> l_command entry = args_command args
    \<and> l_returncode entry = Some rc \<and> stderr w1 = stderr w
    \<and> var_read_fd l1 = Some r \<and> map_of (fds w1) r = Some e \<and> fd_dir e = ReadEnd
    \<and> tokens_after_child False api child args w = Some (int (length (chans w1 (fd_chan e))))"
  proof (cases "args_pipe args")
    case True
    with run ret obtain r wr env w0 where
        cp: "create_pipe ?n w = (Inr (r, wr, env), w0)"
      and sr: "subprocess_run child (args_command args) (Some env) [r, wr] w0 = (Inr rc, w1)"
      and l1: "var_read_fd l1 = Some r"
      by (auto simp: and_then_Inr in_world_eq assign_eq)
    from create_pipe_Inr [OF cp] lowest_free_Cons_neq [of r "map fst (fds w)"]
    have "map_of (fds w0) r = Some \<lparr>fd_chan = next_chan w, fd_dir = ReadEnd, fd_nonblock = False,
                                  fd_inheritable = True\<rparr>"
      by auto
    moreover from keepsD [OF keeps_create_pipe cp]
    have "launched w0 = launched w" "stderr w0 = stderr w" by simp_all
    moreover note subprocess_run_Inr [OF sr]
    ultimately show ?thesis
      using True cp sr l1 by (simp add: tokens_after_child_def)
  next
    case False
    with run ret unbound have fifo: "args_fifo args \<noteq> []"
      by (auto simp: return_eq split: if_splits)
    with False run ret obtain r wr env w0 where
        cf: "create_fifo (args_fifo args) ?n w = (Inr (r, wr, env), w0)"
      and sr: "subprocess_run child (args_command args) (Some env) [] w0 = (Inr rc, w1)"
      and l1: "var_read_fd l1 = Some r"
      by (auto simp: and_then_Inr in_world_eq assign_eq)
    from create_fifo_Inr [OF cf] lowest_free_Cons_neq [of r "map fst (fds w)"]
    have "map_of (fds w0) r = Some \<lparr>fd_chan = next_chan w, fd_dir = ReadEnd, fd_nonblock = True,
                                  fd_inheritable = False\<rparr>"
      by auto
    moreover from keepsD [OF keeps_create_fifo cf]
    have "launched w0 = launched w" "stderr w0 = stderr w" by simp_all
    moreover note subprocess_run_Inr [OF sr]
    ultimately show ?thesis
      using False fifo cf sr l1 by (simp add: tokens_after_child_def)
  qed
  then obtain entry r e where
    log1: "launched w1 = launched w @ [entry]" "l_command entry = args_command args"
      "l_returncode entry = Some rc" "stderr w1 = stderr w"
    and fd: "var_read_fd l1 = Some r" "map_of (fds w1) r = Some e" "fd_dir e = ReadEnd"
    and tok: "tokens_after_child False api child args w = Some (int (length (chans w1 (fd_chan e))))"
    by blast
  have same: "posix_try child (args\<lparr>args_check := False\<rparr>) (l, w) = (Inr (), (l', w'))" if "rc \<noteq> 0"
  proof -
    from that chk have fin: "l' = l1\<lparr>var_exit_code := rc\<rparr>" "w' = w1"
      by (simp_all add: return_def)
    show ?thesis
      unfolding posix_try_def and_then_Inr [of _ _ "(l, w)"]
    proof (intro exI conjI)
      show "(if args_pipe (args\<lparr>args_check := False\<rparr>) then
          and_then (in_world (create_pipe (args_job_count (args\<lparr>args_check := False\<rparr>)))) (\<lambda>(read_fd, write_fd, env).
          and_then (assign (\<lambda>l. l\<lparr>var_read_fd := Some read_fd, var_write_fd := Some write_fd\<rparr>)) (\<lambda>_.
          and_then (in_world (subprocess_run child (args_command (args\<lparr>args_check := False\<rparr>)) (Some env) [read_fd, write_fd])) (\<lambda>ret.
          assign (\<lambda>l. l\<lparr>var_ret := Some ret\<rparr>))))
        else if args_fifo (args\<lparr>args_check := False\<rparr>) \<noteq> [] then
          and_then (in_world (create_fifo (args_fifo (args\<lparr>args_check := False\<rparr>)) (args_job_count (args\<lparr>args_check := False\<rparr>)))) (\<lambda>(read_fd, write_fd, env).
          and_then (assign (\<lambda>l. l\<lparr>var_read_fd := Some read_fd, var_write_fd := Some write_fd\<rparr>)) (\<lambda>_.
          and_then (in_world (subprocess_run child (args_command (args\<lparr>args_check := False\<rparr>)) (Some env) [])) (\<lambda>ret.
          and_then (assign (\<lambda>l. l\<lparr>var_ret := Some ret\<rparr>)) (\<lambda>_.
          assign (\<lambda>l. l\<lparr>var_delete_fifo := args_fifo (args\<lparr>args_check := False\<rparr>)\<rparr>)))))
        else return ()) (l, w) = (Inr (), (l1, w1))"
        using run by (simp split: if_splits)
      show "and_then (read_var var_ret ''ret'') (\<lambda>ret.
        and_then (assign (\<lambda>l. l\<lparr>var_exit_code := ret\<rparr>)) (\<lambda>_.
        if ret = 0 \<and> args_check (args\<lparr>args_check := False\<rparr>) then
          and_then (read_var var_read_fd ''read_fd'') (\<lambda>read_fd.
          and_then (in_world (check_pipe_tokens read_fd (args_job_count (args\<lparr>args_check := False\<rparr>)))) (\<lambda>exit_code.
          assign (\<lambda>l. l\<lparr>var_exit_code := exit_code\<rparr>)))
        else return ())) (l1, w1) = (Inr (), (l', w'))"
        using ret fin by (simp add: and_then_def read_var_def assign_def return_def)
    qed
  qed
  show ?thesis
  proof (cases "rc = 0 \<and> args_check args")
    case True
    with chk fd(1) obtain c where
      ck: "check_pipe_tokens r ?n w1 = (Inr c, w')" and c: "var_exit_code l' = c"
      by (auto simp: and_then_Inr read_var_Inr in_world_eq assign_eq)
    show ?thesis
    proof (cases "1 < ?n")
      case True': True
      from check_pipe_tokens_counts [OF True' fd(2,3)] ck
      have "c = (if int (length (chans w1 (fd_chan e))) = ?n - 1 then 0 else 1)"
        "stderr w' = stderr w1 @ spec_discrepancy_report (?n - 1) (int (length (chans w1 (fd_chan e))))"
        "launched w' = launched w1"
        by auto
      with log1 True True' tok c same show ?thesis
        by (intro exI [of _ rc] exI [of _ entry]) simp
    next
      case False
      with ck have "c = 0" "w' = w1"
        by (simp_all add: check_pipe_tokens_def return_def)
      with log1 True False c same show ?thesis
        by (intro exI [of _ rc] exI [of _ entry]) simp
    qed
  next
    case False
    with chk have "l' = l1\<lparr>var_exit_code := rc\<rparr>" "w' = w1"
      by (simp_all add: return_def)
    with log1 False same show ?thesis
      by (intro exI [of _ rc] exI [of _ entry]) auto
  qed
qed

lemma with_locals_Inr:
  "with_locals l m w = (Inr a, w') \<longleftrightarrow> (\<exists>l'. m (l, w) = (Inr a, (l', w')))"
  by (auto simp: with_locals_def split: prod.splits)

lemmas fixture_defs = lenient_api_def no_semaphore_def stdio_def example_world_def example_args_def
  quiet_child_def greedy_child_def no_such_command_def fifo_removing_child_def

lemma lowest_free_stdio [simp]:
  "lowest_free [0, Suc 0, 2] = 3" "lowest_free [3, 0, Suc 0, 2] = 4"
  by (simp_all add: lowest_free_def eval_nat_numeral)

subsection \<open>The pipe pool returns when the tokens fit\<close>

lemma check_pipe_tokens_total:
  assumes "map_of (fds w) fd = Some e" and "fd_dir e = ReadEnd"
  shows "\<exists>w'. check_pipe_tokens fd n w
            = (Inr (if 1 < n \<and> int (length (chans w (fd_chan e))) \<noteq> n - 1 then 1 else 0), w')
          \<and> dom (map_of (fds w')) = dom (map_of (fds w))"
proof (cases "1 < n")
  case False
  then show ?thesis by (simp add: check_pipe_tokens_def return_def)
next
  case True
  have "dom ((map_of (fds w))(fd \<mapsto> e')) = dom (map_of (fds w))" for e'
    using assms(1) by auto
  then show ?thesis
    using True check_pipe_tokens_returns [OF True assms]
    by (simp add: Let_def update_conv')
qed

lemma posix_finally_returns:
  assumes "var_read_fd l = Some r" and "var_write_fd l = Some wr" and "var_delete_fifo l = []"
    and "wr \<noteq> r" and "r \<in> dom (map_of (fds w))" and "wr \<in> dom (map_of (fds w))"
  shows "\<exists>w'. posix_finally (l, w) = (Inr (), (l, w'))"
  using assms
  by (auto simp: posix_finally_def and_then_def read_var_def in_world_def os_close_def get_var_def
      return_def delete_conv')

text \<open>
  With the anonymous pipe, and tokens that fit into its buffer, nothing in the
  cleanup can fail: whenever the child exits, \<^verbatim>\<open>main\<close> returns, and the exit code is
  1 exactly when \<^verbatim>\<open>--check\<close> is set, the child returned 0, the capacity is above 1 and
  the number of tokens the child left in the pipe is not the capacity minus one;
  otherwise it is the child's return code.
\<close>

lemma main_pipe_returns:
  fixes w :: "'k world" and child :: "'k child"
  defines "r \<equiv> lowest_free (map fst (fds w))"
  defines "wr \<equiv> lowest_free (r # map fst (fds w))"
  assumes args: "\<not> args_help_usage args" "args_command args \<noteq> []" "0 < args_job_count args"
      "args_pipe args"
    and cap: "nat (args_job_count args - 1) \<le> pipe_capacity w"
    and child: "child (args_command args)
         ((os_environ w)(''MAKEFLAGS'' \<mapsto> pipe_makeflags (args_job_count args) r wr)) [r, wr]
         (fs w) ((chans w)(next_chan w := replicate (nat (args_job_count args - 1)) CHR ''x''))
         (kernel w) = Exited rc f c k"
  shows "fst (main False api child args w) =
     Inr (if rc = 0 \<and> args_check args \<and> 1 < args_job_count args
            \<and> int (length (c (next_chan w))) \<noteq> args_job_count args - 1
          then 1 else rc)"
proof -
  let ?n = "args_job_count args"
  let ?ch = "next_chan w"
  let ?er = "\<lparr>fd_chan = ?ch, fd_dir = ReadEnd, fd_nonblock = False, fd_inheritable = True\<rparr>"
  let ?ew = "\<lparr>fd_chan = ?ch, fd_dir = WriteEnd, fd_nonblock = False, fd_inheritable = True\<rparr>"
  let ?env = "(os_environ w)(''MAKEFLAGS'' \<mapsto> pipe_makeflags ?n r wr)"
  let ?w1 = "w\<lparr>chans := (chans w)(?ch := replicate (nat (?n - 1)) CHR ''x''),
               next_chan := Suc ?ch, fds := (wr, ?ew) # (r, ?er) # fds w\<rparr>"
  have neq: "wr \<noteq> r" unfolding wr_def by (rule lowest_free_Cons_neq)
  have cp: "create_pipe ?n w = (Inr (r, wr, ?env), ?w1)"
    using create_pipe_returns [OF args(3) cap] by (simp add: Let_def r_def wr_def)
  obtain w2 where run: "subprocess_run child (args_command args) (Some ?env) [r, wr] ?w1 = (Inr rc, w2)"
    and w2: "fds w2 = (wr, ?ew) # (r, ?er) # fds w" "chans w2 = c"
    using child by (simp add: subprocess_run_def)
  have mr: "map_of (fds w2) r = Some ?er" using neq w2 by simp
  have d2: "r \<in> dom (map_of (fds w2))" "wr \<in> dom (map_of (fds w2))"
    using w2 by auto
  let ?l = "\<lparr>var_read_fd = Some r, var_write_fd = Some wr, var_ret = Some rc,
              var_delete_fifo = [], var_exit_code = rc\<rparr>"
  have fin: "\<exists>g. \<forall>l. var_read_fd l = Some r \<and> var_write_fd l = Some wr \<and> var_delete_fifo l = []
                \<longrightarrow> posix_finally (l, w3) = (Inr (), (l, g l))"
    if "dom (map_of (fds w3)) = dom (map_of (fds w2))" for w3 :: "'k world"
  proof (intro choice allI)
    fix l
    show "\<exists>w4. var_read_fd l = Some r \<and> var_write_fd l = Some wr \<and> var_delete_fifo l = []
                \<longrightarrow> posix_finally (l, w3) = (Inr (), (l, w4))"
      using posix_finally_returns [of l r wr w3] neq d2 that by auto
  qed
  show ?thesis
  proof (cases "rc = 0 \<and> args_check args")
    case False
    from fin [of w2] obtain g where
      "\<And>l. var_read_fd l = Some r \<Longrightarrow> var_write_fd l = Some wr \<Longrightarrow> var_delete_fifo l = []
            \<Longrightarrow> posix_finally (l, w2) = (Inr (), (l, g l))"
      by auto
    with False show ?thesis
      using args
      by (auto simp: main_def Let_def with_locals_def and_then_def try_finally_def
        posix_try_def in_world_def assign_def read_var_def get_var_def return_def cp run)
  next
    case True
    let ?v = "if 1 < ?n \<and> int (length (c ?ch)) \<noteq> ?n - 1 then 1 else (0::int)"
    from check_pipe_tokens_total [OF mr, of ?n] w2
    obtain w3 where ck: "check_pipe_tokens r ?n w2 = (Inr ?v, w3)"
      and d3: "dom (map_of (fds w3)) = dom (map_of (fds w2))"
      by auto
    from fin [OF d3] obtain g where
      "\<And>l. var_read_fd l = Some r \<Longrightarrow> var_write_fd l = Some wr \<Longrightarrow> var_delete_fifo l = []
            \<Longrightarrow> posix_finally (l, w3) = (Inr (), (l, g l))"
      by auto
    with True show ?thesis
      using args
      by (auto simp: main_def Let_def with_locals_def and_then_def try_finally_def
        posix_try_def in_world_def assign_def read_var_def get_var_def return_def cp run ck)
  qed
qed

section \<open>The examples, evaluated\<close>

lemma read_tokens_eval:
  assumes "map_of (fds w) fd \<noteq> None" and "fd_dir (the (map_of (fds w) fd)) = ReadEnd"
    and "fd_nonblock (the (map_of (fds w) fd))"
  shows "read_tokens fd n w =
           (Inr (n + int (length (chans w (fd_chan (the (map_of (fds w) fd)))))),
            w\<lparr>chans := (chans w)(fd_chan (the (map_of (fds w) fd)) := [])\<rparr>)"
  using assms by (intro read_tokens_drains) auto

lemma example_create_fifo:
  "create_fifo ''/tmp/jobserver_tokens'' 4 example_world =
      (Inr (3, 4, (os_environ example_world)(''MAKEFLAGS'' \<mapsto> fifo_makeflags 4 ''/tmp/jobserver_tokens'')),
       example_world\<lparr>fs := (fs example_world)(''/tmp/jobserver_tokens'' \<mapsto> Fifo 1),
            chans := (chans example_world)(1 := replicate (nat (4 - 1)) CHR ''x''),
            next_chan := 2,
            fds := (4, \<lparr>fd_chan = 1, fd_dir = WriteEnd, fd_nonblock = True, fd_inheritable = False\<rparr>)
                 # (3, \<lparr>fd_chan = 1, fd_dir = ReadEnd, fd_nonblock = True, fd_inheritable = False\<rparr>)
                 # stdio\<rparr>)"
  by (subst create_fifo_returns) (simp_all add: example_world_def stdio_def Let_def)

lemmas main_defs = main_def Let_def with_locals_def and_then_def try_finally_def
  posix_try_def posix_finally_def in_world_def assign_def read_var_def get_var_def
  subprocess_run_def os_close_def os_remove_def return_def AList.delete_eq

lemma example_create_pipe:
  "\<exists>env w'. create_pipe 4 example_world = (Inr (3, 4, env), w')"
  using create_pipe_returns [of 4 example_world]
  by (simp add: Let_def example_world_def stdio_def)

lemma str_int_digits: "str_int 1 = ''1''" "str_int 2 = ''2''" "str_int 3 = ''3''" "str_int 4 = ''4''"
  by (simp_all add: str_int_def str_nat.simps digit_char_def)

section \<open>The claims\<close>

text \<open>
  C1. The semaphore pool is to publish \<^verbatim>\<open>-j<N>\<close> with the job count in decimal. The
  source builds the value from a plain string literal, not a formatted one, so the
  text \<^verbatim>\<open>{job_count}\<close> goes out as it stands: with four jobs and the default name the
  entry is \<^verbatim>\<open>" -j{job_count} --jobserver-auth=jobserver_tokens"\<close>, which does not contain
  \<^verbatim>\<open>-j4\<close>. The pipe and FIFO pools format the count.
\<close>

theorem create_sem_makeflags_is_literal:
  "\<exists>handle env w'.
     create_sem lenient_api ''jobserver_tokens'' 4 example_world = (Inr (handle, env), w')
   \<and> env ''MAKEFLAGS'' = Some '' -j{job_count} --jobserver-auth=jobserver_tokens''
   \<and> \<not> sublist ''-j4'' (the (env ''MAKEFLAGS''))"
  by (simp add: create_sem_def py_defs lenient_api_def sublist_code)

text \<open>
  C2. The semaphore is to start at \<open>N - 1\<close> with maximum \<open>N\<close>. The source passes
  \<open>job_count\<close> where \<^verbatim>\<open>CreateSemaphore\<close> takes the initial count and \<open>job_count - 1\<close> where
  it takes the maximum: with four jobs, an interface that grants the request as made
  holds a semaphore of count 4 and maximum 3.
\<close>

theorem create_sem_counts_swapped:
  "\<exists>handle env w'.
     create_sem lenient_api ''jobserver_tokens'' 4 example_world = (Inr (handle, env), w')
   \<and> kernel w' = \<lparr>sem_count = 4, sem_max = 3\<rparr>"
  by (simp add: create_sem_def py_defs lenient_api_def)

text \<open>
  C3. The FIFO that \<^verbatim>\<open>create_fifo\<close> made is to be gone when \<^verbatim>\<open>main\<close> is left, also
  when launching the child raises. \<^verbatim>\<open>delete_fifo\<close> is assigned only after
  \<^verbatim>\<open>subprocess.run\<close> has returned, so when the launch raises the \<^verbatim>\<open>finally\<close> block closes
  the descriptors and removes nothing: the path did not exist before, the launch
  raises, and the FIFO is still there afterwards. When the child runs (here it exits
  with 2) the FIFO is removed.
\<close>

theorem fifo_left_behind_when_launch_raises:
  "fs example_world ''/tmp/jobserver_tokens'' = None
   \<and> fst (main False lenient_api no_such_command example_args example_world) = Inl OSError
   \<and> fs (snd (main False lenient_api no_such_command example_args example_world))
        ''/tmp/jobserver_tokens'' = Some (Fifo 1)
   \<and> fst (main False lenient_api (quiet_child 2) example_args example_world) = Inr 2
   \<and> fs (snd (main False lenient_api (quiet_child 2) example_args example_world))
        ''/tmp/jobserver_tokens'' = None"
proof -
  have m1: "fst (main False lenient_api no_such_command example_args example_world) = Inl OSError"
    "fs (snd (main False lenient_api no_such_command example_args example_world))
        ''/tmp/jobserver_tokens'' = Some (Fifo 1)"
    by (simp_all add: main_defs example_args_def example_create_fifo no_such_command_def)
  have m2: "fst (main False lenient_api (quiet_child 2) example_args example_world) = Inr 2"
    "fs (snd (main False lenient_api (quiet_child 2) example_args example_world))
        ''/tmp/jobserver_tokens'' = None"
    by (simp_all add: main_defs example_args_def example_create_fifo quiet_child_def)
  have "fs example_world ''/tmp/jobserver_tokens'' = None"
    by (simp add: example_world_def)
  with m1 m2 show ?thesis by simp
qed

text \<open>
  C4, as stated, fails: \<^verbatim>\<open>create_fifo\<close> writes the tokens with one non-blocking
  \<^verbatim>\<open>os.write\<close> and does not look at its result. With 70000 jobs and a buffer of 65536
  bytes the write is cut short: \<^verbatim>\<open>create_fifo\<close> returns, and the FIFO holds 65536 tokens,
  not 69999.
\<close>

theorem create_fifo_write_cut_short:
  "\<exists>read_fd write_fd env w'.
      create_fifo ''/tmp/jobserver_tokens'' 70000 example_world = (Inr (read_fd, write_fd, env), w')
    \<and> pool_tokens read_fd write_fd w' = Some (replicate 65536 CHR ''x'')
    \<and> pool_tokens read_fd write_fd w' \<noteq> Some (replicate (nat (70000 - 1)) CHR ''x'')
    \<and> fst (and_then (os_set_blocking read_fd False) (\<lambda>_. read_tokens read_fd 0) w') = Inr 65536"
proof -
  let ?er = "\<lparr>fd_chan = 1, fd_dir = ReadEnd, fd_nonblock = True, fd_inheritable = False\<rparr>"
  let ?ew = "\<lparr>fd_chan = 1, fd_dir = WriteEnd, fd_nonblock = True, fd_inheritable = False\<rparr>"
  let ?w' = "example_world\<lparr>fs := (fs example_world)(''/tmp/jobserver_tokens'' \<mapsto> Fifo 1),
            chans := (chans example_world)(1 := replicate 65536 CHR ''x''),
            next_chan := 2, fds := (4, ?ew) # (3, ?er) # stdio\<rparr>"
  have cf: "create_fifo ''/tmp/jobserver_tokens'' 70000 example_world =
      (Inr (3, 4, (os_environ example_world)
                    (''MAKEFLAGS'' \<mapsto> fifo_makeflags 70000 ''/tmp/jobserver_tokens'')), ?w')"
    by (subst create_fifo_returns) (simp_all add: example_world_def stdio_def Let_def)
  have pt: "pool_tokens 3 4 ?w' = Some (chans ?w' 1)" and mr: "map_of (fds ?w') 3 = Some ?er"
    by (rule pool_tokens_fresh_pair [of 4 3 ?er ?ew 1]; simp)+
  have "fst (and_then (os_set_blocking 3 False) (\<lambda>_. read_tokens 3 0) ?w')
          = Inr (int (length (chans ?w' (fd_chan ?er))))"
    by (rule drain_counts [OF mr]) simp
  with cf pt show ?thesis
    by (intro exI [of _ 3] exI [of _ 4] exI [of _ ?w'] exI conjI) simp_all
qed

text \<open>
  C4, amended. For every capacity \<open>N > 1\<close>: right after \<^verbatim>\<open>create_pipe\<close> has returned,
  and right after \<^verbatim>\<open>create_fifo\<close> has returned when \<open>N - 1\<close> does not exceed the pipe buffer,
  the channel behind the two returned descriptors holds exactly \<open>N - 1\<close> bytes \<^verbatim>\<open>x\<close>
  (written by one \<^verbatim>\<open>os.write\<close>), and draining it as the verification does
  (non-blocking, one byte at a time) counts exactly \<open>N - 1\<close>. When \<open>N - 1\<close> exceeds the
  buffer, a \<^verbatim>\<open>create_fifo\<close> that returns has stored as many tokens as the buffer holds.
\<close>

theorem create_stores_capacity_minus_one_tokens:
  assumes "1 < job_count"
  shows "(create_pipe job_count w = (Inr (read_fd, write_fd, env), w1) \<longrightarrow>
            pool_tokens read_fd write_fd w1 = Some (replicate (nat (job_count - 1)) CHR ''x'')
          \<and> fst (and_then (os_set_blocking read_fd False) (\<lambda>_. read_tokens read_fd 0) w1)
              = Inr (job_count - 1))
       \<and> (create_fifo path job_count w = (Inr (read_fd', write_fd', env'), w2)
            \<and> nat (job_count - 1) \<le> pipe_capacity w \<longrightarrow>
            pool_tokens read_fd' write_fd' w2 = Some (replicate (nat (job_count - 1)) CHR ''x'')
          \<and> fst (and_then (os_set_blocking read_fd' False) (\<lambda>_. read_tokens read_fd' 0) w2)
              = Inr (job_count - 1))
       \<and> (create_fifo path job_count w = (Inr (read_fd', write_fd', env'), w2)
            \<and> pipe_capacity w < nat (job_count - 1) \<longrightarrow>
            pool_tokens read_fd' write_fd' w2 = Some (replicate (pipe_capacity w) CHR ''x'')
          \<and> fst (and_then (os_set_blocking read_fd' False) (\<lambda>_. read_tokens read_fd' 0) w2)
              = Inr (int (pipe_capacity w)))"
proof -
  have pipe: "pool_tokens read_fd write_fd w1 = Some (replicate (nat (job_count - 1)) CHR ''x'')
          \<and> fst (and_then (os_set_blocking read_fd False) (\<lambda>_. read_tokens read_fd 0) w1)
              = Inr (job_count - 1)"
    if a: "create_pipe job_count w = (Inr (read_fd, write_fd, env), w1)"
  proof -
    let ?er = "\<lparr>fd_chan = next_chan w, fd_dir = ReadEnd, fd_nonblock = False, fd_inheritable = True\<rparr>"
    let ?ew = "\<lparr>fd_chan = next_chan w, fd_dir = WriteEnd, fd_nonblock = False, fd_inheritable = True\<rparr>"
    from create_pipe_Inr [OF a] have
        neq: "write_fd \<noteq> read_fd"
      and w1: "fds w1 = (write_fd, ?ew) # (read_fd, ?er) # fds w"
        "chans w1 (next_chan w) = replicate (nat (job_count - 1)) CHR ''x''"
      using lowest_free_Cons_neq [of read_fd "map fst (fds w)"] by auto
    have pt: "pool_tokens read_fd write_fd w1 = Some (chans w1 (next_chan w))"
      and mr: "map_of (fds w1) read_fd = Some ?er"
      by (rule pool_tokens_fresh_pair [OF neq _ _ _ _ w1(1)]; simp)+
    have "fst (and_then (os_set_blocking read_fd False) (\<lambda>_. read_tokens read_fd 0) w1)
            = Inr (int (length (chans w1 (fd_chan ?er))))"
      by (rule drain_counts [OF mr]) simp
    with pt w1(2) assms show ?thesis by simp
  qed
  have fifo: "pool_tokens read_fd' write_fd' w2
                = Some (replicate (min (pipe_capacity w) (nat (job_count - 1))) CHR ''x'')
          \<and> fst (and_then (os_set_blocking read_fd' False) (\<lambda>_. read_tokens read_fd' 0) w2)
              = Inr (int (min (pipe_capacity w) (nat (job_count - 1))))"
    if a: "create_fifo path job_count w = (Inr (read_fd', write_fd', env'), w2)"
  proof -
    let ?er = "\<lparr>fd_chan = next_chan w, fd_dir = ReadEnd, fd_nonblock = True, fd_inheritable = False\<rparr>"
    let ?ew = "\<lparr>fd_chan = next_chan w, fd_dir = WriteEnd, fd_nonblock = True, fd_inheritable = False\<rparr>"
    from create_fifo_Inr [OF a] have
        neq: "write_fd' \<noteq> read_fd'"
      and w2: "fds w2 = (write_fd', ?ew) # (read_fd', ?er) # fds w"
        "chans w2 (next_chan w) = replicate (min (pipe_capacity w) (nat (job_count - 1))) CHR ''x''"
      using lowest_free_Cons_neq [of read_fd' "map fst (fds w)"] by auto
    have pt: "pool_tokens read_fd' write_fd' w2 = Some (chans w2 (next_chan w))"
      and mr: "map_of (fds w2) read_fd' = Some ?er"
      by (rule pool_tokens_fresh_pair [OF neq _ _ _ _ w2(1)]; simp)+
    have "fst (and_then (os_set_blocking read_fd' False) (\<lambda>_. read_tokens read_fd' 0) w2)
            = Inr (int (length (chans w2 (fd_chan ?er))))"
      by (rule drain_counts [OF mr]) simp
    with pt w2(2) show ?thesis by simp
  qed
  have "min (pipe_capacity w) (nat (job_count - 1)) = nat (job_count - 1)"
    "int (nat (job_count - 1)) = job_count - 1"
    if "nat (job_count - 1) \<le> pipe_capacity w"
    using that assms by simp_all
  moreover have "min (pipe_capacity w) (nat (job_count - 1)) = pipe_capacity w"
    if "pipe_capacity w < nat (job_count - 1)"
    using that by simp
  ultimately show ?thesis
    using pipe fifo by (intro conjI impI) (simp_all del: min.absorb1 min.absorb2)
qed

theorem create_stores_capacity_minus_one_tokens_witness:
  "(1::int) < 4
   \<and> (\<exists>env w1. create_pipe 4 example_world = (Inr (3, 4, env), w1)
        \<and> pool_tokens 3 4 w1 = Some ''xxx''
        \<and> fst (and_then (os_set_blocking 3 False) (\<lambda>_. read_tokens 3 0) w1) = Inr 3)
   \<and> nat (4 - 1) \<le> pipe_capacity example_world
   \<and> (\<exists>env w2. create_fifo ''/tmp/jobserver_tokens'' 4 example_world = (Inr (3, 4, env), w2)
        \<and> pool_tokens 3 4 w2 = Some ''xxx''
        \<and> fst (and_then (os_set_blocking 3 False) (\<lambda>_. read_tokens 3 0) w2) = Inr 3)
   \<and> pipe_capacity example_world < nat (70000 - 1)
   \<and> (\<exists>env w2. create_fifo ''/tmp/jobserver_tokens'' 70000 example_world = (Inr (3, 4, env), w2)
        \<and> pool_tokens 3 4 w2 = Some (replicate 65536 CHR ''x'')
        \<and> fst (and_then (os_set_blocking 3 False) (\<lambda>_. read_tokens 3 0) w2) = Inr 65536)"
proof -
  obtain env1 w1 where p: "create_pipe 4 example_world = (Inr (3, 4, env1), w1)"
    using example_create_pipe by blast
  obtain env2 w2 where f: "create_fifo ''/tmp/jobserver_tokens'' 4 example_world = (Inr (3, 4, env2), w2)"
    using example_create_fifo by blast
  obtain env3 w3 where
    g: "create_fifo ''/tmp/jobserver_tokens'' 70000 example_world = (Inr (3, 4, env3), w3)"
    using create_fifo_returns [of 70000 example_world "''/tmp/jobserver_tokens''"]
    by (simp add: example_world_def stdio_def Let_def)
  have c: "pipe_capacity example_world = 65536"
    by (simp add: example_world_def)
  have r: "replicate (nat (4 - 1)) CHR ''x'' = ''xxx''"
    by (simp add: eval_nat_numeral)
  from create_stores_capacity_minus_one_tokens
         [of 4 example_world 3 4 env1 w1 "''/tmp/jobserver_tokens''" 3 4 env2 w2]
       create_stores_capacity_minus_one_tokens
         [of 70000 example_world 3 4 env1 w1 "''/tmp/jobserver_tokens''" 3 4 env3 w3]
       p f g c r
  show ?thesis
    by auto
qed

text \<open>
  C5, as stated, fails: not every run ends with the child's exit code. In FIFO mode
  a child that removes the FIFO and exits with 3 makes \<^verbatim>\<open>os.remove\<close> raise in the
  \<^verbatim>\<open>finally\<close> block; the exception leaves \<^verbatim>\<open>main\<close>, and the process ends with status 1,
  not 3, although no verification took place.
\<close>

theorem cleanup_error_hides_child_exit_code:
  "fst (main False lenient_api fifo_removing_child example_args example_world)
     = Inl FileNotFoundError
   \<and> map l_returncode
        (launched (snd (main False lenient_api fifo_removing_child example_args example_world)))
     = [Some 3]
   \<and> exit_status (fst (main False lenient_api fifo_removing_child example_args example_world))
     = Some 1"
proof -
  have x: "launched example_world = []"
    by (simp add: example_world_def)
  have "fst (main False lenient_api fifo_removing_child example_args example_world)
     = Inl FileNotFoundError"
    "map l_returncode
        (launched (snd (main False lenient_api fifo_removing_child example_args example_world)))
     = [Some 3]"
    by (simp_all add: x main_defs example_args_def example_create_fifo fifo_removing_child_def)
  then show ?thesis
    by (simp add: exit_status_def)
qed

text \<open>
  C5, amended. Whenever \<^verbatim>\<open>main\<close> returns an exit code after launching a command,
  exactly one child was run, with return code \<open>rc\<close>. If \<^verbatim>\<open>--check\<close> is set, \<open>rc = 0\<close> and
  the capacity \<open>N\<close> is above 1, the exit code is decided by the number of tokens in the
  pool when the child has exited (the bytes in the pipe or FIFO, or the count that
  \<^verbatim>\<open>ReleaseSemaphore\<close> gives): 0 when it is \<open>N - 1\<close>, and 1, with the missing or extra
  tokens reported, when it is not. In every other case the exit code is \<open>rc\<close> and
  nothing is reported. When \<open>rc\<close> is not 0 the run is the same, result and final state,
  as the run without \<^verbatim>\<open>--check\<close>: the verification is not invoked.
\<close>

theorem main_exit_code:
  assumes "\<not> args_help_usage args" and "args_command args \<noteq> []"
    and "main is_windows api child args w = (Inr code, w')"
  shows "\<exists>rc entry.
           launched w' = launched w @ [entry] \<and> l_command entry = args_command args
         \<and> l_returncode entry = Some rc
         \<and> (if args_check args \<and> rc = 0 \<and> 1 < args_job_count args
            then \<exists>actual. tokens_after_child is_windows api child args w = Some actual
                   \<and> code = (if actual = args_job_count args - 1 then 0 else 1)
                   \<and> stderr w' = stderr w @ spec_discrepancy_report (args_job_count args - 1) actual
            else code = rc \<and> stderr w' = stderr w)
         \<and> (rc \<noteq> 0 \<longrightarrow>
               main is_windows api child (args\<lparr>args_check := False\<rparr>) w = (Inr rc, w'))"
proof -
  let ?n = "args_job_count args"
  consider (off) "?n \<le> 0"
    | (sem) "0 < ?n" "is_windows"
    | (posix) "0 < ?n" "\<not> is_windows"
    by linarith
  then show ?thesis
  proof cases
    case off
    with assms have run: "subprocess_run child (args_command args) None [] w = (Inr code, w')"
      by (simp add: main_def)
    moreover from off assms(1,2) run
    have "main is_windows api child (args\<lparr>args_check := False\<rparr>) w = (Inr code, w')"
      by (simp add: main_def)
    ultimately show ?thesis
      using off by (auto dest!: subprocess_run_Inr)
  next
    case sem
    with assms obtain handle env w1 w2 w3 rc where
        cr: "create_sem api (args_name args) ?n w = (Inr (handle, env), w1)"
      and run: "subprocess_run child (args_command args) (Some env) [] w1 = (Inr rc, w2)"
      and chk: "(if rc = 0 \<and> args_check args
                 then check_sem_count api handle ?n
                 else return rc) w2 = (Inr code, w3)"
      and cl: "in_kernel (CloseHandle api handle) w3 = (Inr (), w')"
      by (auto simp: main_def Let_def and_then_Inr try_finally_Inr)
    have l1: "launched w1 = launched w" "stderr w1 = stderr w"
      using keepsD [OF keeps_create_sem cr] by simp_all
    have l2: "launched w' = launched w3" "stderr w' = stderr w3"
      using keepsD [OF keeps_in_kernel cl] by simp_all
    note r = subprocess_run_Inr [OF run]
    have same: "main is_windows api child (args\<lparr>args_check := False\<rparr>) w = (Inr rc, w')"
      if "rc \<noteq> 0"
    proof -
      from that chk have "code = rc" "w3 = w2" by (simp_all add: return_def)
      with sem assms(1,2) cr run cl show ?thesis
        by (simp add: main_def Let_def and_then_def try_finally_def return_def)
    qed
    show ?thesis
    proof (cases "rc = 0 \<and> args_check args")
      case True
      with chk have ck: "check_sem_count api handle ?n w2 = (Inr code, w3)"
        by simp
      show ?thesis
      proof (cases "1 < ?n")
        case True': True
        from check_sem_count_counts [OF ck True'] obtain actual k where
            k: "ReleaseSemaphore api handle 1 (kernel w2) = (Inr actual, k)"
          and c: "code = (if actual = ?n - 1 then 0 else 1)"
            "stderr w3 = stderr w2 @ spec_discrepancy_report (?n - 1) actual"
            "launched w3 = launched w2"
          by blast
        from sem cr run k have "tokens_after_child is_windows api child args w = Some actual"
          by (simp add: tokens_after_child_def)
        with c r l1 l2 True True' same show ?thesis
          by simp
      next
        case False
        with ck have "code = 0" "w3 = w2"
          by (simp_all add: check_sem_count_def return_def)
        with r l1 l2 True False same show ?thesis
          by simp
      qed
    next
      case False
      with chk have "code = rc" "w3 = w2" by (simp_all add: return_def)
      with r l1 l2 False same show ?thesis
        by auto
    qed
  next
    case posix
    let ?l0 = "\<lparr>var_read_fd = None, var_write_fd = None, var_ret = None,
                 var_delete_fifo = [], var_exit_code = 0\<rparr>"
    from posix assms obtain l1 w1 l2 where
        body: "posix_try child args (?l0, w) = (Inr (), (l1, w1))"
      and fin: "posix_finally (l1, w1) = (Inr (), (l2, w'))"
      and code: "code = var_exit_code l2"
      by (auto simp: main_def Let_def with_locals_Inr and_then_Inr try_finally_Inr get_var_eq)
    from posix_finally_Inr [OF fin]
    have l2: "l2 = l1" "launched w' = launched w1" "stderr w' = stderr w1"
      by simp_all
    from posix_try_Inr [OF body, of api] obtain rc entry where
      r: "launched w1 = launched w @ [entry]" "l_command entry = args_command args"
         "l_returncode entry = Some rc"
         "if args_check args \<and> rc = 0 \<and> 1 < ?n
          then \<exists>actual. tokens_after_child False api child args w = Some actual
                 \<and> var_exit_code l1 = (if actual = ?n - 1 then 0 else 1)
                 \<and> stderr w1 = stderr w @ spec_discrepancy_report (?n - 1) actual
          else var_exit_code l1 = rc \<and> stderr w1 = stderr w"
         "rc \<noteq> 0 \<longrightarrow> posix_try child (args\<lparr>args_check := False\<rparr>) (?l0, w) = (Inr (), (l1, w1))"
      by auto
    have "main is_windows api child (args\<lparr>args_check := False\<rparr>) w = (Inr rc, w')" if "rc \<noteq> 0"
    proof -
      from that r(5) have "posix_try child (args\<lparr>args_check := False\<rparr>) (?l0, w) = (Inr (), (l1, w1))"
        by simp
      moreover from that r(4) have "var_exit_code l1 = rc"
        by (simp split: if_splits)
      ultimately show ?thesis
        using posix assms(1,2) fin l2(1)
        by (simp add: main_def Let_def with_locals_def and_then_def try_finally_def get_var_def)
    qed
    with r l2 code posix(2) show ?thesis
      by (intro exI [of _ rc] exI [of _ entry]) simp
  qed
qed

theorem main_exit_code_witness:
  "\<not> args_help_usage example_args \<and> args_command example_args \<noteq> []
   \<and> fst (main False lenient_api greedy_child example_args example_world) = Inr 1
   \<and> tokens_after_child False lenient_api greedy_child example_args example_world = Some 2
   \<and> (\<exists>entry.
         launched (snd (main False lenient_api greedy_child example_args example_world))
           = launched example_world @ [entry]
       \<and> l_command entry = args_command example_args \<and> l_returncode entry = Some 0)
   \<and> stderr (snd (main False lenient_api greedy_child example_args example_world))
       = [''ERROR: 1 were missing from the token pool (got 2, expected 3)'']"
proof -
  have x: "stderr example_world = []" "launched example_world = []"
    by (simp_all add: example_world_def)
  have m: "main False lenient_api greedy_child example_args example_world
      = (Inr 1, snd (main False lenient_api greedy_child example_args example_world))"
    and e: "stderr (snd (main False lenient_api greedy_child example_args example_world))
      = [''ERROR: 1 were missing from the token pool (got 2, expected 3)'']"
    by (simp_all add: x missing_message_def str_int_digits main_defs example_args_def example_create_fifo greedy_child_def
        check_pipe_tokens_def os_set_blocking_def read_tokens_eval update_conv' print_stderr_def)
  have t: "tokens_after_child False lenient_api greedy_child example_args example_world = Some 2"
    by (simp add: tokens_after_child_def example_args_def example_create_fifo subprocess_run_def
        greedy_child_def)
  have a: "\<not> args_help_usage example_args" "args_command example_args \<noteq> []"
    "args_check example_args" "args_job_count example_args = 4"
    by (simp_all add: example_args_def)
  have f: "fst (main False lenient_api greedy_child example_args example_world) = Inr 1"
    by (subst m) simp
  have r: "spec_discrepancy_report 3 2
             = [''ERROR: 1 were missing from the token pool (got 2, expected 3)'']"
    by (simp add: spec_discrepancy_report_def str_int_digits)
  from main_exit_code [OF a(1,2) m] a f t x r e show ?thesis
    by (auto split: if_splits)
qed

text \<open>
  C6. With a job count \<open>\<le> 0\<close> the child is handed the manager's own environment, no
  descriptors, and the file system, channels and kernel objects as they were: nothing
  was created. \<^verbatim>\<open>main\<close> ends as the child does, with its return code, and changes
  nothing but what the child changed and the record of the launch.
\<close>

theorem pass_through_when_disabled:
  assumes "args_job_count args \<le> 0" and "\<not> args_help_usage args" and "args_command args \<noteq> []"
  shows "main is_windows api child args w =
     (case child (args_command args) (os_environ w) [] (fs w) (chans w) (kernel w) of
        LaunchFailed \<Rightarrow>
          (Inl OSError,
           w\<lparr>launched := launched w @
                [\<lparr>l_command = args_command args, l_env = os_environ w, l_pass_fds = [],
                  l_returncode = None\<rparr>]\<rparr>)
      | Exited rc fs' chans' k' \<Rightarrow>
          (Inr rc,
           w\<lparr>fs := fs', chans := chans', kernel := k',
             launched := launched w @
                [\<lparr>l_command = args_command args, l_env = os_environ w, l_pass_fds = [],
                  l_returncode = Some rc\<rparr>]\<rparr>))"
  using assms by (simp add: main_def subprocess_run_def Let_def split: child_result.splits)

theorem pass_through_when_disabled_witness:
  "args_job_count (example_args\<lparr>args_job_count := 0\<rparr>) \<le> 0
   \<and> \<not> args_help_usage (example_args\<lparr>args_job_count := 0\<rparr>)
   \<and> args_command (example_args\<lparr>args_job_count := 0\<rparr>) \<noteq> []
   \<and> main False lenient_api (quiet_child 7) (example_args\<lparr>args_job_count := 0\<rparr>) example_world
       = (Inr 7,
          example_world\<lparr>launched :=
            [\<lparr>l_command = [''make''], l_env = os_environ example_world, l_pass_fds = [],
              l_returncode = Some 7\<rparr>]\<rparr>)"
  using pass_through_when_disabled
    [of "example_args\<lparr>args_job_count := 0\<rparr>" False lenient_api "quiet_child 7" example_world]
  by (simp add: example_args_def quiet_child_def example_world_def)

text \<open>
  C7. For every capacity \<open>N > 1\<close> the verification expects \<open>N - 1\<close> tokens. Given the
  count \<open>actual\<close> that the drain of the pipe, or \<^verbatim>\<open>ReleaseSemaphore\<close>, yields, it returns
  0 and reports nothing when \<open>actual = N - 1\<close>, and otherwise returns 1 and reports
  \<open>N - 1 - actual\<close> missing tokens or \<open>actual - (N - 1)\<close> extra tokens.
\<close>

theorem check_classifies_count:
  assumes "1 < job_count"
  shows "(map_of (fds w) read_fd = Some e \<and> fd_dir e = ReadEnd
            \<and> int (length (chans w (fd_chan e))) = actual \<longrightarrow>
          (\<exists>w'. check_pipe_tokens read_fd job_count w
                   = (Inr (if actual = job_count - 1 then 0 else 1), w')
               \<and> stderr w' = stderr w @ spec_discrepancy_report (job_count - 1) actual))
       \<and> (ReleaseSemaphore api handle 1 (kernel w) = (Inr actual, k) \<longrightarrow>
          (\<exists>w'. check_sem_count api handle job_count w
                   = (Inr (if actual = job_count - 1 then 0 else 1), w')
               \<and> stderr w' = stderr w @ spec_discrepancy_report (job_count - 1) actual))"
proof (intro conjI impI)
  assume "map_of (fds w) read_fd = Some e \<and> fd_dir e = ReadEnd
            \<and> int (length (chans w (fd_chan e))) = actual"
  then show "\<exists>w'. check_pipe_tokens read_fd job_count w
                   = (Inr (if actual = job_count - 1 then 0 else 1), w')
               \<and> stderr w' = stderr w @ spec_discrepancy_report (job_count - 1) actual"
    using check_pipe_tokens_returns [OF assms, of w read_fd e]
    by (auto simp: Let_def spec_discrepancy_report_def missing_message_def extra_message_def)
next
  assume "ReleaseSemaphore api handle 1 (kernel w) = (Inr actual, k)"
  then show "\<exists>w'. check_sem_count api handle job_count w
                   = (Inr (if actual = job_count - 1 then 0 else 1), w')
               \<and> stderr w' = stderr w @ spec_discrepancy_report (job_count - 1) actual"
    using assms
    by (auto simp: check_sem_count_def py_defs Let_def spec_discrepancy_report_def
        missing_message_def extra_message_def)
qed

theorem check_classifies_count_witness:
  "(1::int) < 4
   \<and> fst (check_pipe_tokens 3 4 two_tokens_world) = Inr 1
   \<and> stderr (snd (check_pipe_tokens 3 4 two_tokens_world))
       = [''ERROR: 1 were missing from the token pool (got 2, expected 3)'']
   \<and> fst (check_sem_count lenient_api 1 4 two_tokens_world) = Inr 1
   \<and> stderr (snd (check_sem_count lenient_api 1 4 two_tokens_world))
       = [''ERROR: 1 extra tokens were released to the token pool (got 4, expected 3)'']"
proof -
  let ?e = "\<lparr>fd_chan = 1, fd_dir = ReadEnd, fd_nonblock = True, fd_inheritable = False\<rparr>"
  have p: "map_of (fds two_tokens_world) 3 = Some ?e \<and> fd_dir ?e = ReadEnd
             \<and> int (length (chans two_tokens_world (fd_chan ?e))) = 2"
    by (simp add: two_tokens_world_def)
  have q: "ReleaseSemaphore lenient_api 1 1 (kernel two_tokens_world)
             = (Inr 4, \<lparr>sem_count = 5, sem_max = 9\<rparr>)"
    by (simp add: lenient_api_def two_tokens_world_def)
  have s: "stderr two_tokens_world = []"
    by (simp add: two_tokens_world_def example_world_def)
  have r: "spec_discrepancy_report 3 2
             = [''ERROR: 1 were missing from the token pool (got 2, expected 3)'']"
          "spec_discrepancy_report 3 4
             = [''ERROR: 1 extra tokens were released to the token pool (got 4, expected 3)'']"
    by (simp_all add: spec_discrepancy_report_def str_int_digits)
  from check_classifies_count [of 4 two_tokens_world 3 ?e 2 lenient_api 1 "\<lparr>sem_count = 5, sem_max = 9\<rparr>"]
    check_classifies_count [of 4 two_tokens_world 3 ?e 4 lenient_api 1 "\<lparr>sem_count = 5, sem_max = 9\<rparr>"]
    p q s r
  show ?thesis by auto
qed

text \<open>
  C8. With capacity 1 both verification functions return 0 and leave the state as it
  is, whatever it is: nothing is drained, read or printed.
\<close>

theorem check_is_noop_for_one_slot:
  "check_pipe_tokens read_fd 1 w = (Inr 0, w) \<and> check_sem_count api handle 1 w = (Inr 0, w)"
  by (simp add: check_pipe_tokens_def check_sem_count_def return_def)

text \<open>
  C9. Whenever one of the three create operations returns, the environment it
  returns is the manager's environment with \<^verbatim>\<open>MAKEFLAGS\<close> set to the pool's protocol
  string, whatever \<^verbatim>\<open>MAKEFLAGS\<close> was before; every other variable is as the manager
  has it.
\<close>

theorem create_env_is_parent_with_makeflags:
  "(create_pipe job_count w = (Inr (read_fd, write_fd, env), w1) \<longrightarrow>
      env = (os_environ w)(''MAKEFLAGS'' \<mapsto> pipe_makeflags job_count read_fd write_fd))
   \<and> (create_fifo path job_count w = (Inr (read_fd', write_fd', env'), w2) \<longrightarrow>
      env' = (os_environ w)(''MAKEFLAGS'' \<mapsto> fifo_makeflags job_count path))
   \<and> (create_sem api sem_name job_count w = (Inr (handle, env''), w3) \<longrightarrow>
      env'' = (os_environ w)(''MAKEFLAGS'' \<mapsto> '' -j{job_count} --jobserver-auth='' @ sem_name))"
proof (intro conjI impI)
  assume "create_pipe job_count w = (Inr (read_fd, write_fd, env), w1)"
  from create_pipe_Inr [OF this]
  show "env = (os_environ w)(''MAKEFLAGS'' \<mapsto> pipe_makeflags job_count read_fd write_fd)"
    by simp
next
  assume "create_fifo path job_count w = (Inr (read_fd', write_fd', env'), w2)"
  from create_fifo_Inr [OF this]
  show "env' = (os_environ w)(''MAKEFLAGS'' \<mapsto> fifo_makeflags job_count path)"
    by simp
next
  assume "create_sem api sem_name job_count w = (Inr (handle, env''), w3)"
  then show "env'' = (os_environ w)(''MAKEFLAGS'' \<mapsto> '' -j{job_count} --jobserver-auth='' @ sem_name)"
    by (rule create_sem_Inr)
qed

theorem create_env_is_parent_with_makeflags_witness:
  "\<exists>env1 w1 env2 w2 handle env3 w3.
      create_pipe 4 example_world = (Inr (3, 4, env1), w1)
    \<and> env1 = (os_environ example_world)(''MAKEFLAGS'' \<mapsto> pipe_makeflags 4 3 4)
    \<and> create_fifo ''/tmp/jobserver_tokens'' 4 example_world = (Inr (3, 4, env2), w2)
    \<and> env2 = (os_environ example_world)(''MAKEFLAGS'' \<mapsto> fifo_makeflags 4 ''/tmp/jobserver_tokens'')
    \<and> create_sem lenient_api ''jobserver_tokens'' 4 example_world = (Inr (handle, env3), w3)
    \<and> env3 = (os_environ example_world)
                (''MAKEFLAGS'' \<mapsto> '' -j{job_count} --jobserver-auth=jobserver_tokens'')
    \<and> env1 ''PATH'' = Some ''/usr/bin'' \<and> env2 ''PATH'' = Some ''/usr/bin''
    \<and> env3 ''PATH'' = Some ''/usr/bin''"
proof -
  obtain env1 w1 where p: "create_pipe 4 example_world = (Inr (3, 4, env1), w1)"
    using example_create_pipe by blast
  obtain env2 w2 where f: "create_fifo ''/tmp/jobserver_tokens'' 4 example_world = (Inr (3, 4, env2), w2)"
    using example_create_fifo by blast
  obtain handle env3 w3 where
    s: "create_sem lenient_api ''jobserver_tokens'' 4 example_world = (Inr (handle, env3), w3)"
    by (simp add: create_sem_def py_defs lenient_api_def)
  have x: "os_environ example_world ''PATH'' = Some ''/usr/bin''"
    by (simp add: example_world_def)
  from create_env_is_parent_with_makeflags
    [of 4 example_world 3 4 env1 w1 "''/tmp/jobserver_tokens''" 3 4 env2 w2
        lenient_api "''jobserver_tokens''" handle env3 w3] p f s
  have "env1 = (os_environ example_world)(''MAKEFLAGS'' \<mapsto> pipe_makeflags 4 3 4)"
    "env2 = (os_environ example_world)(''MAKEFLAGS'' \<mapsto> fifo_makeflags 4 ''/tmp/jobserver_tokens'')"
    "env3 = (os_environ example_world)
                (''MAKEFLAGS'' \<mapsto> '' -j{job_count} --jobserver-auth=jobserver_tokens'')"
    by simp_all
  with p f s x show ?thesis
    by (intro exI [of _ env1] exI [of _ w1] exI [of _ env2] exI [of _ w2] exI [of _ handle]
        exI [of _ env3] exI [of _ w3]) simp
qed

text \<open>
  C10. Whenever \<^verbatim>\<open>create_pipe\<close> returns, for whatever capacity, its \<^verbatim>\<open>MAKEFLAGS\<close>
  names the two returned descriptors twice, after \<^verbatim>\<open>--jobserver-fds=\<close> and after
  \<^verbatim>\<open>--jobserver-auth=\<close>, in decimal and in the same order.
\<close>

theorem pipe_makeflags_names_descriptors_twice:
  assumes "create_pipe job_count w = (Inr (read_fd, write_fd, env), w')"
  shows "env ''MAKEFLAGS'' = Some ('' -j'' @ str_int job_count
              @ '' --jobserver-fds='' @ str_int (int read_fd) @ '','' @ str_int (int write_fd)
              @ '' --jobserver-auth='' @ str_int (int read_fd) @ '','' @ str_int (int write_fd))"
  using create_pipe_Inr [OF assms]
  by (simp add: pipe_makeflags_def)

theorem pipe_makeflags_names_descriptors_twice_witness:
  "\<exists>env w'. create_pipe 4 example_world = (Inr (3, 4, env), w')
        \<and> env ''MAKEFLAGS'' = Some '' -j4 --jobserver-fds=3,4 --jobserver-auth=3,4''"
proof -
  obtain env w' where c: "create_pipe 4 example_world = (Inr (3, 4, env), w')"
    using example_create_pipe by blast
  from pipe_makeflags_names_descriptors_twice [OF c] c show ?thesis
    by (simp add: str_int_digits)
qed

end
